theory Spec2Isabelle
  imports Complex_Main "HOL-Library.Multiset"
begin

chapter \<open>TIMEX: forecast post-processing, training side effects and the report layer\<close>

section \<open>Python exceptions as values\<close>

text \<open>
  Every \<^verbatim>\<open>raise\<close> of the modelled code, and every exception pandas raises on
  the paths that are modelled, is a value of \<open>py_error\<close>; a fallible step returns
  \<open>py_error + 'a\<close> with \<open>Inl\<close> for the exception. \<open>ExternalError\<close> stands for
  anything raised inside the Prophet library.
\<close>

datatype py_error = KeyError | IndexError | ValueError | TypeError | AttributeError | ExternalError

definition and_then :: "'e + 'a \<Rightarrow> ('a \<Rightarrow> 'e + 'b) \<Rightarrow> 'e + 'b" where
  "and_then r f = (case r of Inl e \<Rightarrow> Inl e | Inr v \<Rightarrow> f v)"

fun collect :: "('e + 'a) list \<Rightarrow> 'e + 'a list" where
  "collect [] = Inr []"
| "collect (r # rs) = and_then r (\<lambda>v. and_then (collect rs) (\<lambda>vs. Inr (v # vs)))"

section \<open>pandas data frames\<close>

text \<open>
  A cell is a float, a string or the missing value. A \<open>frame\<close> is a pandas DataFrame:
  the name of its index, the row labels, and the columns in their order, each a name
  with one cell per row. Column names are looked up by first match, as for a frame whose
  column names are unique (Prophet's frames are).
\<close>

datatype cell = Num real | Str string | NaN

record frame =
  index_name :: "string option"
  index :: "cell list"
  columns :: "(string \<times> cell list) list"

definition range_index :: "nat \<Rightarrow> cell list" where
  "range_index n = map (\<lambda>i. Num (real i)) [0..<n]"

text \<open>
  \<^verbatim>\<open>df.reset_index()\<close>: the index becomes the first column, named after the index,
  or \<^verbatim>\<open>index\<close> (\<^verbatim>\<open>level_0\<close> when a column \<^verbatim>\<open>index\<close> exists) for an unnamed one;
  pandas raises ValueError when a column of that name exists already. The new index is
  \<^verbatim>\<open>RangeIndex(0, n)\<close>.
\<close>

definition reset_index :: "frame \<Rightarrow> py_error + frame" where
  "reset_index df =
     (let names = map fst (columns df);
          label = (case index_name df of
                     Some n \<Rightarrow> n
                   | None \<Rightarrow> if ''index'' \<in> set names then ''level_0'' else ''index'')
      in if label \<in> set names then Inl ValueError
         else Inr \<lparr>index_name = None, index = range_index (length (index df)),
                   columns = (label, index df) # columns df\<rparr>)"

text \<open>\<^verbatim>\<open>df.rename(columns=d, inplace=True)\<close>; \<open>d\<close> is the dictionary as an association list.\<close>

definition rename_columns :: "(string \<times> string) list \<Rightarrow> frame \<Rightarrow> frame" where
  "rename_columns d df =
     df\<lparr>columns := map (\<lambda>(n, vs). (case map_of d n of Some n' \<Rightarrow> n' | None \<Rightarrow> n, vs)) (columns df)\<rparr>"

text \<open>\<^verbatim>\<open>df.set_index(name, inplace=True)\<close>: KeyError when there is no such column.\<close>

definition set_index :: "string \<Rightarrow> frame \<Rightarrow> py_error + frame" where
  "set_index label df =
     (case map_of (columns df) label of
        None \<Rightarrow> Inl KeyError
      | Some vs \<Rightarrow> Inr \<lparr>index_name = Some label, index = vs,
                         columns = filter (\<lambda>c. fst c \<noteq> label) (columns df)\<rparr>)"

text \<open>\<^verbatim>\<open>df.columns = names\<close>: ValueError on a length mismatch.\<close>

definition set_columns :: "string list \<Rightarrow> frame \<Rightarrow> py_error + frame" where
  "set_columns names df =
     (if length names \<noteq> length (columns df) then Inl ValueError
      else Inr (df\<lparr>columns := zip names (map snd (columns df))\<rparr>))"

text \<open>\<^verbatim>\<open>df[name]\<close>: KeyError when there is no such column.\<close>

definition get_column :: "frame \<Rightarrow> string \<Rightarrow> py_error + cell list" where
  "get_column df label =
     (case map_of (columns df) label of None \<Rightarrow> Inl KeyError | Some vs \<Rightarrow> Inr vs)"

text \<open>
  \<^verbatim>\<open>df.loc[:, name] = series\<close>: the column is overwritten, or appended when the frame
  has none of that name. The values are taken by position, as pandas does for an array and
  for a series over the frame's own index (what the inverse of a transformation returns
  for a column of the frame); values of another length are a ValueError.
\<close>

definition loc_set_column :: "frame \<Rightarrow> string \<Rightarrow> cell list \<Rightarrow> py_error + frame" where
  "loc_set_column df label vs =
     (if length vs \<noteq> length (index df) then Inl ValueError
      else if label \<in> set (map fst (columns df))
      then Inr (df\<lparr>columns := map (\<lambda>(n, old). (n, if n = label then vs else old)) (columns df)\<rparr>)
      else Inr (df\<lparr>columns := columns df @ [(label, vs)]\<rparr>))"

text \<open>
  \<^verbatim>\<open>df.iloc[:, 0] = v\<close>: every cell of the first column, by position, becomes the
  scalar \<open>v\<close>; IndexError on a frame without columns.
\<close>

definition iloc_set_first_column :: "frame \<Rightarrow> cell \<Rightarrow> py_error + frame" where
  "iloc_set_first_column df v =
     (case columns df of
        [] \<Rightarrow> Inl IndexError
      | (n, vs) # cs \<Rightarrow> Inr (df\<lparr>columns := (n, map (\<lambda>_. v) vs) # cs\<rparr>))"

text \<open>
  \<^verbatim>\<open>left.join(right)\<close>: a left join on the row labels. Each left row is paired with
  every right row of the same label, or with missing values when there is none; pandas
  raises ValueError when the two frames share a column name. The result keeps the name
  of the left index when the right labels are unique; when a right label is repeated,
  pandas builds a new index, which has no name.
\<close>

definition join_positions :: "cell list \<Rightarrow> cell list \<Rightarrow> (nat \<times> nat option) list" where
  "join_positions ls rs =
     concat (map (\<lambda>i. case filter (\<lambda>j. rs ! j = ls ! i) [0..<length rs] of
                         [] \<Rightarrow> [(i, None)]
                       | js \<Rightarrow> map (\<lambda>j. (i, Some j)) js) [0..<length ls])"

definition join :: "frame \<Rightarrow> frame \<Rightarrow> py_error + frame" where
  "join left right =
     (if list_ex (\<lambda>n. n \<in> set (map fst (columns right))) (map fst (columns left))
      then Inl ValueError
      else let ps = join_positions (index left) (index right) in
        Inr \<lparr>index_name = (if distinct (index right) then index_name left else None),
             index = map (\<lambda>p. index left ! fst p) ps,
             columns =
               map (\<lambda>(n, vs). (n, map (\<lambda>p. vs ! fst p) ps)) (columns left) @
               map (\<lambda>(n, vs). (n, map (\<lambda>p. case snd p of None \<Rightarrow> NaN | Some k \<Rightarrow> vs ! k) ps))
                 (columns right)\<rparr>)"

section \<open>\<^verbatim>\<open>prophet_predictor.py\<close>: \<^verbatim>\<open>FBProphet.predict\<close>\<close>

text \<open>
  The frame handed to Prophet: the index of \<^verbatim>\<open>future_dataframe\<close> becomes the column
  \<^verbatim>\<open>ds\<close>, and the extra regressors, when given, are joined on it.
\<close>

definition future_frame :: "frame \<Rightarrow> frame option \<Rightarrow> py_error + frame" where
  "future_frame future_dataframe extra_regressors =
     and_then (reset_index future_dataframe) (\<lambda>f0.
       let future = rename_columns [(''index'', ''ds'')] f0 in
       case extra_regressors of
         None \<Rightarrow> Inr future
       | Some extra \<Rightarrow>
           and_then (set_index ''ds'' future) (\<lambda>f1.
           and_then (join f1 extra) (\<lambda>f2.
           reset_index f2)))"

text \<open>
  \<^verbatim>\<open>FBProphet.predict\<close>. The fitted Prophet model (\<^verbatim>\<open>self.fbmodel.predict\<close>) and the
  inverse of the configured transformation (\<^verbatim>\<open>self.transformation.inverse\<close>, a function
  from a series to a series) belong to code outside this file and are parameters. The
  three assignments follow the source line by line: the second one reads
  \<^verbatim>\<open>forecast['yhat_upper']\<close>.
\<close>

definition predict ::
  "(frame \<Rightarrow> py_error + frame) \<Rightarrow> (cell list \<Rightarrow> cell list) \<Rightarrow> frame \<Rightarrow> frame option
     \<Rightarrow> py_error + frame" where
  "predict fbmodel_predict transformation_inverse future_dataframe extra_regressors =
     and_then (future_frame future_dataframe extra_regressors) (\<lambda>future.
     and_then (fbmodel_predict future) (\<lambda>forecast.
     and_then (get_column forecast ''yhat'') (\<lambda>yhat.
     and_then (loc_set_column forecast ''yhat'' (transformation_inverse yhat)) (\<lambda>forecast1.
     and_then (get_column forecast1 ''yhat_upper'') (\<lambda>upper.
     and_then (loc_set_column forecast1 ''yhat_lower'' (transformation_inverse upper)) (\<lambda>forecast2.
     and_then (get_column forecast2 ''yhat_upper'') (\<lambda>upper2.
     and_then (loc_set_column forecast2 ''yhat_upper'' (transformation_inverse upper2)) (\<lambda>forecast3.
     set_index ''ds'' forecast3))))))))"

section \<open>\<^verbatim>\<open>prophet_predictor.py\<close>: \<^verbatim>\<open>FBProphet.train\<close>\<close>

text \<open>
  Python passes data frames by reference, and \<^verbatim>\<open>train\<close> uses the in-place forms of
  pandas, so the frames live in a heap: a list of frames, an object being its position.
  \<^verbatim>\<open>input_data\<close> and \<^verbatim>\<open>extra_regressors\<close> are addresses of the caller's frames.

  \<^verbatim>\<open>self.fbmodel\<close> is a fresh \<^verbatim>\<open>Prophet()\<close> that collects the regressor names and
  is then fitted. Fitting belongs to the Prophet library and is the parameter
  \<open>prophet_fit\<close> (regressor names and training frame to a fitted model, or an
  exception); it is taken to read its frame only.
\<close>

datatype 'm prophet = Unfitted "string list" | Fitted 'm

record 'm train_outcome =
  heap :: "frame list"
  fbmodel :: "'m prophet"
  raised :: "py_error option"

definition fit_model ::
  "(string list \<Rightarrow> frame \<Rightarrow> py_error + 'm) \<Rightarrow> string list \<Rightarrow> frame list \<Rightarrow> frame
     \<Rightarrow> 'm train_outcome" where
  "fit_model prophet_fit regressors h df =
     (case prophet_fit regressors df of
        Inl e \<Rightarrow> \<lparr>heap = h, fbmodel = Unfitted regressors, raised = Some e\<rparr>
      | Inr m \<Rightarrow> \<lparr>heap = h, fbmodel = Fitted m, raised = None\<rparr>)"

text \<open>\<^verbatim>\<open>input_data.columns[[0, 1]]\<close>: IndexError on a frame with fewer than two columns.\<close>

definition first_two_names :: "frame \<Rightarrow> py_error + string list" where
  "first_two_names df =
     (case columns df of
        c0 # c1 # _ \<Rightarrow> Inr [fst c0, fst c1]
      | _ \<Rightarrow> Inl IndexError)"

text \<open>
  With extra regressors, \<^verbatim>\<open>input_data = input_data.join(extra_regressors)\<close> binds the
  local name to the frame that \<^verbatim>\<open>join\<close> creates (allocated at the end of the heap), and
  the two in-place calls work on that frame. \<^verbatim>\<open>dict(zip(old_names, new_names))\<close> keeps
  the last value of a repeated key, hence the \<open>rev\<close>. Without extra regressors the
  in-place calls work on the caller's frame.
\<close>

definition train ::
  "(string list \<Rightarrow> frame \<Rightarrow> py_error + 'm) \<Rightarrow> frame list \<Rightarrow> nat \<Rightarrow> nat option
     \<Rightarrow> 'm train_outcome" where
  "train prophet_fit h input_data extra_regressors =
     (case extra_regressors of
        Some extra \<Rightarrow>
          (case join (h ! input_data) (h ! extra) of
             Inl e \<Rightarrow> \<lparr>heap = h, fbmodel = Unfitted [], raised = Some e\<rparr>
           | Inr joined \<Rightarrow>
               let a = length h; h1 = h @ [joined] in
               (case reset_index joined of
                  Inl e \<Rightarrow> \<lparr>heap = h1, fbmodel = Unfitted [], raised = Some e\<rparr>
                | Inr df1 \<Rightarrow>
                    let h2 = h1[a := df1] in
                    (case first_two_names df1 of
                       Inl e \<Rightarrow> \<lparr>heap = h2, fbmodel = Unfitted [], raised = Some e\<rparr>
                     | Inr old_names \<Rightarrow>
                         let df2 = rename_columns (rev (zip old_names [''ds'', ''y''])) df1
                         in fit_model prophet_fit (map fst (columns (h ! extra)))
                              (h2[a := df2]) df2)))
      | None \<Rightarrow>
          (case reset_index (h ! input_data) of
             Inl e \<Rightarrow> \<lparr>heap = h, fbmodel = Unfitted [], raised = Some e\<rparr>
           | Inr df1 \<Rightarrow>
               let h1 = h[input_data := df1] in
               (case set_columns [''ds'', ''y''] df1 of
                  Inl e \<Rightarrow> \<lparr>heap = h1, fbmodel = Unfitted [], raised = Some e\<rparr>
                | Inr df2 \<Rightarrow> fit_model prophet_fit [] (h1[input_data := df2]) df2)))"

section \<open>\<^verbatim>\<open>functions.py\<close>: the best lag of \<^verbatim>\<open>cross_correlation_graph\<close>\<close>

text \<open>
  \<^verbatim>\<open>xcorr[mode]\<close> is a frame with one row per lag and one column per series.
  \<^verbatim>\<open>Series.abs\<close> raises TypeError on a string; \<^verbatim>\<open>idxmax\<close> is numpy's
  \<^verbatim>\<open>nanargmax\<close> (the first position of the greatest value that is not missing)
  followed by a lookup of the row label at that position. On an empty series it raises
  ValueError; on a series whose values are all missing it returns the missing value, and
  the lookup by that label which follows raises KeyError unless the frame has a row
  labelled so.
\<close>

fun cell_abs :: "cell \<Rightarrow> py_error + cell" where
  "cell_abs (Num r) = Inr (Num \<bar>r\<bar>)"
| "cell_abs NaN = Inr NaN"
| "cell_abs (Str s) = Inl TypeError"

definition series_abs :: "cell list \<Rightarrow> py_error + cell list" where
  "series_abs vs = collect (map cell_abs vs)"

fun nanargmax_from :: "nat \<Rightarrow> real \<Rightarrow> nat \<Rightarrow> cell list \<Rightarrow> nat" where
  "nanargmax_from best m k [] = best"
| "nanargmax_from best m k (Num v # vs) =
     (if m < v then nanargmax_from k v (Suc k) vs else nanargmax_from best m (Suc k) vs)"
| "nanargmax_from best m k (_ # vs) = nanargmax_from best m (Suc k) vs"

fun nanargmax_at :: "nat \<Rightarrow> cell list \<Rightarrow> py_error + nat" where
  "nanargmax_at k [] = Inl ValueError"
| "nanargmax_at k (Num v # vs) = Inr (nanargmax_from k v (Suc k) vs)"
| "nanargmax_at k (_ # vs) = nanargmax_at (Suc k) vs"

definition idxmax :: "cell list \<Rightarrow> cell list \<Rightarrow> py_error + cell" where
  "idxmax labels vs =
     (case nanargmax_at 0 vs of
        Inr i \<Rightarrow> Inr (labels ! i)
      | Inl e \<Rightarrow> if vs = [] then Inl ValueError else Inr NaN)"

text \<open>
  \<^verbatim>\<open>df.loc[label, col]\<close>: the cell of the one row with that label. A label that occurs
  twice gives a series, on which the comparison with the threshold that follows raises
  ValueError.
\<close>

definition loc_cell :: "frame \<Rightarrow> cell \<Rightarrow> string \<Rightarrow> py_error + cell" where
  "loc_cell df label col =
     and_then (get_column df col) (\<lambda>vs.
       case filter (\<lambda>row. fst row = label) (zip (index df) vs) of
         [] \<Rightarrow> Inl KeyError
       | [row] \<Rightarrow> Inr (snd row)
       | _ \<Rightarrow> Inl ValueError)"

text \<open>
  The body of the loop over the columns (lines 442 to 446): the edge drawn from the target
  to \<open>col\<close>, with its correlation and lag, or no edge. The caller passes \<^verbatim>\<open>None\<close> as
  threshold when the configuration has no \<^verbatim>\<open>xcorr_graph_threshold\<close>, and the
  comparison of a float with \<^verbatim>\<open>None\<close> raises TypeError. A missing correlation
  exceeds no threshold.
\<close>

definition cross_correlation_edge ::
  "frame \<Rightarrow> real option \<Rightarrow> string \<Rightarrow> py_error + (real \<times> cell) option" where
  "cross_correlation_edge xc threshold col =
     and_then (get_column xc col) (\<lambda>vs.
     and_then (series_abs vs) (\<lambda>avs.
     and_then (idxmax (index xc) avs) (\<lambda>index_of_max.
     and_then (loc_cell xc index_of_max col) (\<lambda>corr.
       case corr of
         Num c \<Rightarrow>
           (case threshold of
              None \<Rightarrow> Inl TypeError
            | Some t \<Rightarrow> Inr (if t < \<bar>c\<bar> then Some (c, index_of_max) else None))
       | NaN \<Rightarrow> (case threshold of None \<Rightarrow> Inl TypeError | Some t \<Rightarrow> Inr None)
       | Str s \<Rightarrow> Inl TypeError))))"

text \<open>The edges of one mode's graph: one step per column, in column order.\<close>

definition cross_correlation_edges ::
  "frame \<Rightarrow> real option \<Rightarrow> py_error + (string \<times> (real \<times> cell) option) list" where
  "cross_correlation_edges xc threshold =
     collect (map (\<lambda>col. and_then (cross_correlation_edge xc threshold col) (\<lambda>e. Inr (col, e)))
                  (map fst (columns xc)))"

section \<open>\<^verbatim>\<open>functions.py\<close>: the models' part of \<^verbatim>\<open>create_scenario_children\<close>\<close>

text \<open>
  Modelled from the spec: the classes \<^verbatim>\<open>ValidationPerformance\<close> and
  \<^verbatim>\<open>SingleResult\<close> are imported by \<^verbatim>\<open>functions.py\<close> and declared outside the
  sources at hand. Their fields are the ones \<^verbatim>\<open>functions.py\<close> reads and the spec lists
  for PerformanceMetrics and TrainingWindowResult. Metrics are real numbers (no NaN).
  The report only reads a performance object, so it is kept by value; the prediction of
  a result is a data frame that the report receives by reference, so a result holds its
  address in the heap of frames.
\<close>

record validation_performance =
  first_used_index :: int
  MAE :: real
  MSE :: real
  RMSE :: real
  AM :: real

record single_result =
  prediction :: nat
  testing_performances :: validation_performance

text \<open>\<^verbatim>\<open>str.upper\<close> on ASCII letters.\<close>

definition upper_char :: "char \<Rightarrow> char" where
  "upper_char c =
     (case map_of (zip ''abcdefghijklmnopqrstuvwxyz'' ''ABCDEFGHIJKLMNOPQRSTUVWXYZ'') c of
        Some u \<Rightarrow> u
      | None \<Rightarrow> c)"

definition upper :: "string \<Rightarrow> string" where
  "upper s = map upper_char s"

text \<open>
  \<^verbatim>\<open>getattr(x.testing_performances, name)\<close> for an upper-case \<open>name\<close>: one of the
  four metrics, or AttributeError.
\<close>

definition getattr_metric :: "validation_performance \<Rightarrow> string \<Rightarrow> py_error + real" where
  "getattr_metric p attr =
     (if attr = ''MAE'' then Inr (MAE p)
      else if attr = ''MSE'' then Inr (MSE p)
      else if attr = ''RMSE'' then Inr (RMSE p)
      else if attr = ''AM'' then Inr (AM p)
      else Inl AttributeError)"

text \<open>
  \<^verbatim>\<open>model_results.sort(key=...)\<close> (line 113): Python computes the key of every
  element first, leaves the list as it is when a key raises, and then sorts stably by
  the keys.
\<close>

definition sort_results :: "string \<Rightarrow> single_result list \<Rightarrow> py_error + single_result list" where
  "sort_results main_accuracy_estimator rs =
     and_then (collect (map (\<lambda>r. getattr_metric (testing_performances r)
                                   (upper main_accuracy_estimator)) rs)) (\<lambda>keys.
       Inr (map snd (sort_key fst (zip keys rs))))"

record trace =
  trace_name :: string
  trace_x :: "cell list"
  trace_y :: "cell list"

text \<open>
  \<^verbatim>\<open>prediction_plot\<close>, as far as it reads \<^verbatim>\<open>predicted_data\<close>: the traces drawn from
  the prediction. \<^verbatim>\<open>predicted_data.index[0]\<close> raises IndexError on an empty frame and
  \<^verbatim>\<open>predicted_data['yhat']\<close> KeyError; the two bound columns are read inside
  \<^verbatim>\<open>try ... except: pass\<close>. The traces of the raw scenario data are drawn from
  \<^verbatim>\<open>df\<close> alone and are left out, as is the layout.
\<close>

definition prediction_plot :: "frame \<Rightarrow> py_error + trace list" where
  "prediction_plot predicted_data =
     (case index predicted_data of
        [] \<Rightarrow> Inl IndexError
      | _ \<Rightarrow>
          and_then (get_column predicted_data ''yhat'') (\<lambda>yhat.
            Inr (\<lparr>trace_name = ''yhat'', trace_x = index predicted_data, trace_y = yhat\<rparr> #
              (case get_column predicted_data ''yhat_lower'' of
                 Inl _ \<Rightarrow> []
               | Inr lower \<Rightarrow>
                   \<lparr>trace_name = ''yhat_lower'', trace_x = index predicted_data, trace_y = lower\<rparr> #
                   (case get_column predicted_data ''yhat_upper'' of
                      Inl _ \<Rightarrow> []
                    | Inr upper_bound \<Rightarrow>
                        [\<lparr>trace_name = ''yhat_upper'', trace_x = index predicted_data,
                          trace_y = upper_bound\<rparr>])))))"

text \<open>
  \<^verbatim>\<open>performance_plot\<close>: one trace per error kind over the training windows, ordered
  by \<^verbatim>\<open>first_used_index\<close>, and then the "small trick" of line 857,
  \<^verbatim>\<open>predicted_data.iloc[:, 0] = "nan"\<close>, on the frame it was handed. It returns the
  traces and the heap after the assignment. The trace of the training data is drawn from
  \<^verbatim>\<open>df\<close> alone and is left out.
\<close>

definition performance_plot ::
  "frame list \<Rightarrow> nat \<Rightarrow> validation_performance list \<Rightarrow> py_error + (trace list \<times> frame list)" where
  "performance_plot h predicted_data tps =
     (let df_performances = sort_key first_used_index tps;
          xs = map (\<lambda>tp. Num (real_of_int (first_used_index tp))) df_performances
      in and_then (iloc_set_first_column (h ! predicted_data) (Str ''nan'')) (\<lambda>pd.
           Inr ([\<lparr>trace_name = ''MAE'', trace_x = xs, trace_y = map (\<lambda>tp. Num (MAE tp)) df_performances\<rparr>,
                 \<lparr>trace_name = ''MSE'', trace_x = xs, trace_y = map (\<lambda>tp. Num (MSE tp)) df_performances\<rparr>,
                 \<lparr>trace_name = ''AM'', trace_x = xs, trace_y = map (\<lambda>tp. Num (AM tp)) df_performances\<rparr>,
                 \<lparr>trace_name = ''yhat'', trace_x = index pd, trace_y = snd (hd (columns pd))\<rparr>],
                h[predicted_data := pd])))"

text \<open>
  \<^verbatim>\<open>show_errors\<close>: the metrics of one performance object, without
  \<^verbatim>\<open>first_used_index\<close>, each rounded for display by the source (the rounding and the
  text are left out). Modelled from the spec: \<^verbatim>\<open>get_dict\<close> belongs to the absent class
  and is taken to return a new dictionary of the object's five fields, so that the
  \<^verbatim>\<open>del\<close> does not reach the object; the order of its entries is this model's.
\<close>

definition show_errors :: "validation_performance \<Rightarrow> (string \<times> real) list" where
  "show_errors p =
     filter (\<lambda>kv. fst kv \<noteq> ''first_used_index'')
       [(''first_used_index'', real_of_int (first_used_index p)), (''MSE'', MSE p),
        (''RMSE'', RMSE p), (''MAE'', MAE p), (''AM'', AM p)]"

text \<open>
  \<^verbatim>\<open>characteristics_list\<close> shows the errors of \<^verbatim>\<open>testing_performances[0]\<close>; the
  sentences about the model's characteristics are left out.
\<close>

definition characteristics_list :: "validation_performance list \<Rightarrow> py_error + (string \<times> real) list" where
  "characteristics_list tps = (case tps of [] \<Rightarrow> Inl IndexError | tp # _ \<Rightarrow> Inr (show_errors tp))"

record model_children =
  errors_shown :: "(string \<times> real) list"
  prediction_graph :: "trace list"
  performance_graph :: "trace list"

record report_outcome =
  results :: "single_result list"
  frames :: "frame list"
  children :: "py_error + model_children"

text \<open>
  The body of \<^verbatim>\<open>for model_name in models\<close> (lines 107 to 125) for one model:
  \<open>model_characteristic\<close> and \<open>model_parameters\<close> are the two dictionaries, \<open>rs\<close> is the
  list object \<^verbatim>\<open>model.results\<close> and \<open>h\<close> the heap of frames. The outcome holds the
  list and the heap as the body leaves them, also when it raises.
\<close>

definition scenario_model_children ::
  "(string \<rightharpoonup> int) \<Rightarrow> (string \<rightharpoonup> string) \<Rightarrow> single_result list \<Rightarrow> frame list \<Rightarrow> report_outcome" where
  "scenario_model_children model_characteristic model_parameters rs h =
     (case model_characteristic ''test_values'' of
        None \<Rightarrow> \<lparr>results = rs, frames = h, children = Inl KeyError\<rparr>
      | Some test_values \<Rightarrow>
     (case model_parameters ''main_accuracy_estimator'' of
        None \<Rightarrow> \<lparr>results = rs, frames = h, children = Inl KeyError\<rparr>
      | Some main_accuracy_estimator \<Rightarrow>
     (case sort_results main_accuracy_estimator rs of
        Inl e \<Rightarrow> \<lparr>results = rs, frames = h, children = Inl e\<rparr>
      | Inr model_results \<Rightarrow>
     (case model_results of
        [] \<Rightarrow> \<lparr>results = model_results, frames = h, children = Inl IndexError\<rparr>
      | best # _ \<Rightarrow>
          let best_prediction = prediction best;
              tps = map testing_performances model_results
          in
     (case characteristics_list tps of
        Inl e \<Rightarrow> \<lparr>results = model_results, frames = h, children = Inl e\<rparr>
      | Inr shown \<Rightarrow>
     (case prediction_plot (h ! best_prediction) of
        Inl e \<Rightarrow> \<lparr>results = model_results, frames = h, children = Inl e\<rparr>
      | Inr pred_traces \<Rightarrow>
     (case performance_plot h best_prediction tps of
        Inl e \<Rightarrow> \<lparr>results = model_results, frames = h, children = Inl e\<rparr>
      | Inr (perf_traces, h') \<Rightarrow>
          \<lparr>results = model_results, frames = h',
           children = Inr \<lparr>errors_shown = shown, prediction_graph = pred_traces,
                           performance_graph = perf_traces\<rparr>\<rparr>)))))))"

section \<open>The transforms (modelled from the spec)\<close>

text \<open>
  Modelled from the spec: \<^verbatim>\<open>pre_transformation\<close> and \<^verbatim>\<open>post_transformation\<close> are
  defined in \<^verbatim>\<open>timex/data_prediction/data_prediction.py\<close>, which is not among the
  sources; only the tests that call them are. The definitions follow the spec's section
  4.1 word for word, over the real numbers:
  \<^item> \<^verbatim>\<open>none\<close>: identity;
  \<^item> \<^verbatim>\<open>log\<close>: \<open>apply(x) = sign(x) * ln(|x|)\<close> with \<open>apply(0) = 0\<close>, and
    \<open>invert(y) = sign(y) * exp(|y|)\<close> with \<open>invert(0) = 0\<close>;
  \<^item> \<^verbatim>\<open>log_modified\<close>: \<open>apply(x) = sign(x) * ln(|x| + 1)\<close>, and
    \<open>invert(y) = sign(y) * (exp(|y|) - 1)\<close>.
\<close>

datatype transform_kind = NoTransform | Log | LogModified

definition transform_apply :: "transform_kind \<Rightarrow> real \<Rightarrow> real" where
  "transform_apply kind x =
     (case kind of
        NoTransform \<Rightarrow> x
      | Log \<Rightarrow> if x = 0 then 0 else sgn x * ln \<bar>x\<bar>
      | LogModified \<Rightarrow> sgn x * ln (\<bar>x\<bar> + 1))"

definition transform_invert :: "transform_kind \<Rightarrow> real \<Rightarrow> real" where
  "transform_invert kind y =
     (case kind of
        NoTransform \<Rightarrow> y
      | Log \<Rightarrow> if y = 0 then 0 else sgn y * exp \<bar>y\<bar>
      | LogModified \<Rightarrow> sgn y * (exp \<bar>y\<bar> - 1))"

definition pre_transformation :: "real list \<Rightarrow> transform_kind \<Rightarrow> real list" where
  "pre_transformation s kind = map (transform_apply kind) s"

definition post_transformation :: "real list \<Rightarrow> transform_kind \<Rightarrow> real list" where
  "post_transformation s kind = map (transform_invert kind) s"

section \<open>The backtest (modelled from the spec)\<close>

text \<open>
  Modelled from the spec: \<^verbatim>\<open>launch_model\<close> belongs to the class
  \<^verbatim>\<open>PredictionModel\<close> of \<^verbatim>\<open>timex/data_prediction/data_prediction.py\<close>, which is not
  among the sources. The definitions follow the spec's sections 3, 4.2 and 4.3:
  \<^item> a count is given as it is or as a percentage of the series length, resolved rounding
    down with a floor of 1;
  \<^item> fewer than \<open>delta_training_values + test_values\<close> points is a configuration error;
  \<^item> \<open>W = floor((len - test_values) / delta_training_values)\<close>, at least 1; window \<open>i\<close>
    starts at \<open>len - test_values - (i + 1) * delta_training_values\<close>; one more window uses
    all the history (it starts at 0). The spec gives that window for its example only,
    where the strided windows leave history unused; here it is added in exactly that case;
  \<^item> the training data of a window is \<open>series[start : -test_values]\<close> of the transformed
    series; a fresh model is fitted and asked for the training index, the test horizon and
    \<open>prediction_lags\<close> points more; the prediction is inverted and scored against the true
    values on the common timestamps;
  \<^item> a window whose training fails, or whose scoring finds no overlap, is dropped; no
    surviving window is an error; the results are sorted ascending by the main estimator.

  The spec does not say how timestamps are produced, so the timestamp of a point is its
  position in the series. The forecasting model is the external capability of the spec:
  \<open>model_train\<close> fits a model or fails, and \<open>model_predict\<close> returns the fitted model's
  forecast for a future index as a series of its own (timestamps and values); nothing in
  the engine makes that series hold one value per requested timestamp.
\<close>

datatype amount = Absolute nat | Percentage nat

datatype estimator = ByMAE | ByMSE | ByRMSE | ByAM

datatype engine_error = ConfigurationError | AllWindowsFailedError

record model_config =
  test_amount :: amount
  delta_training_amount :: amount
  prediction_lags :: nat
  transformation :: transform_kind
  main_accuracy_estimator :: estimator

record 'm forecast_model =
  model_train :: "(nat \<times> real) list \<Rightarrow> 'm option"
  model_predict :: "'m \<Rightarrow> nat list \<Rightarrow> (nat \<times> real) list"

record training_window_result =
  window_first_used_index :: nat
  window_prediction :: "(nat \<times> real) list"
  window_performance :: validation_performance

definition resolve_amount :: "nat \<Rightarrow> amount \<Rightarrow> nat" where
  "resolve_amount n a = (case a of Absolute v \<Rightarrow> v | Percentage p \<Rightarrow> max 1 (n * p div 100))"

definition window_starts :: "nat \<Rightarrow> nat \<Rightarrow> nat \<Rightarrow> nat list" where
  "window_starts n tv delta =
     (let w = max 1 ((n - tv) div delta);
          strided = map (\<lambda>i. n - tv - (i + 1) * delta) [0..<w]
      in if last strided = 0 then strided else strided @ [0])"

definition mean :: "real list \<Rightarrow> real" where
  "mean xs = sum_list xs / real (length xs)"

text \<open>The scorer: errors \<open>predicted - actual\<close> on the common timestamps; none is a failure.\<close>

definition score ::
  "(nat \<times> real) list \<Rightarrow> (nat \<times> real) list \<Rightarrow> nat \<Rightarrow> validation_performance option" where
  "score actual predicted first_used =
     (let errs = List.map_filter (\<lambda>(t, a). map_option (\<lambda>p. p - a) (map_of predicted t)) actual
      in if errs = [] then None
         else Some \<lparr>first_used_index = int first_used,
                    MAE = mean (map abs errs),
                    MSE = mean (map (\<lambda>e. e * e) errs),
                    RMSE = sqrt (mean (map (\<lambda>e. e * e) errs)),
                    AM = mean errs\<rparr>)"

definition estimator_metric :: "estimator \<Rightarrow> validation_performance \<Rightarrow> real" where
  "estimator_metric e p = (case e of ByMAE \<Rightarrow> MAE p | ByMSE \<Rightarrow> MSE p | ByRMSE \<Rightarrow> RMSE p | ByAM \<Rightarrow> AM p)"

text \<open>
  The training data of the window that starts at \<open>start\<close>: the transform is applied to
  the whole series, and the slice \<open>[start : -test_values]\<close> is taken from the result.
\<close>

definition training_data :: "model_config \<Rightarrow> real list \<Rightarrow> nat \<Rightarrow> nat \<Rightarrow> (nat \<times> real) list" where
  "training_data cfg series tv start =
     (let n = length series;
          transformed = pre_transformation series (transformation cfg)
      in drop start (take (n - tv) (zip [0..<n] transformed)))"

definition run_window ::
  "'m forecast_model \<Rightarrow> model_config \<Rightarrow> real list \<Rightarrow> nat \<Rightarrow> nat \<Rightarrow> training_window_result option" where
  "run_window fm cfg series tv start =
     (let n = length series
      in case model_train fm (training_data cfg series tv start) of
           None \<Rightarrow> None
         | Some m \<Rightarrow>
             let future_index = [start..<n + prediction_lags cfg];
                 forecast = model_predict fm m future_index;
                 yhat = post_transformation (map snd forecast) (transformation cfg);
                 predicted = zip (map fst forecast) yhat;
                 actual = drop (n - tv) (zip [0..<n] series)
             in map_option (\<lambda>perf. \<lparr>window_first_used_index = start, window_prediction = predicted,
                                     window_performance = perf\<rparr>)
                  (score actual predicted start))"

definition launch_model ::
  "'m forecast_model \<Rightarrow> model_config \<Rightarrow> real list \<Rightarrow> engine_error + training_window_result list" where
  "launch_model fm cfg series =
     (let n = length series;
          tv = resolve_amount n (test_amount cfg);
          delta = resolve_amount n (delta_training_amount cfg)
      in if tv < 1 \<or> delta < 1 \<or> n < delta + tv then Inl ConfigurationError
         else let rs = List.map_filter (run_window fm cfg series tv) (window_starts n tv delta)
              in if rs = [] then Inl AllWindowsFailedError
                 else Inr (sort_key (\<lambda>r. estimator_metric (main_accuracy_estimator cfg)
                                             (window_performance r)) rs))"

text \<open>
  The training slice a result used, as the test suite recovers it from the result:
  \<^verbatim>\<open>df.loc[first_used_index:].iloc[:-test_values]\<close>.
\<close>

definition used_training_set :: "real list \<Rightarrow> nat \<Rightarrow> training_window_result \<Rightarrow> real list" where
  "used_training_set series tv r =
     (let from_first = drop (window_first_used_index r) series
      in take (length from_first - tv) from_first)"

section \<open>Concrete inputs\<close>

text \<open>
  Two window results for the report: the first has the greater MAE, and each refers to a
  prediction frame of its own, at the addresses 0 and 1.
\<close>

definition report_example_frames :: "frame list" where
  "report_example_frames =
     [\<lparr>index_name = Some ''ds'', index = [Num 0, Num 1], columns = [(''yhat'', [Num 1, Num 2])]\<rparr>,
      \<lparr>index_name = Some ''ds'', index = [Num 0, Num 1], columns = [(''yhat'', [Num 3, Num 4])]\<rparr>]"

definition report_example_results :: "single_result list" where
  "report_example_results =
     [\<lparr>prediction = 0,
       testing_performances = \<lparr>first_used_index = 0, MAE = 2, MSE = 4, RMSE = 2, AM = 1\<rparr>\<rparr>,
      \<lparr>prediction = 1,
       testing_performances = \<lparr>first_used_index = 5, MAE = 1, MSE = 1, RMSE = 1, AM = - 1\<rparr>\<rparr>]"

text \<open>
  A heap for \<^verbatim>\<open>train\<close>: the caller's series at address 0 and a frame of extra
  regressors over the same row labels at address 1.
\<close>

definition train_example_heap :: "frame list" where
  "train_example_heap =
     [\<lparr>index_name = None, index = [Num 10, Num 11], columns = [(''v'', [Num 1, Num 2])]\<rparr>,
      \<lparr>index_name = None, index = [Num 10, Num 11], columns = [(''r'', [Num 5, Num 6])]\<rparr>]"

chapter \<open>Properties\<close>

section \<open>Sequencing and column lookup\<close>

lemma and_then_Inr_iff: "and_then r f = Inr y \<longleftrightarrow> (\<exists>v. r = Inr v \<and> f v = Inr y)"
  by (cases r) (simp_all add: and_then_def)

lemma collect_Inr_nth:
  "collect rs = Inr vs \<Longrightarrow> length vs = length rs \<and> (\<forall>j<length rs. rs ! j = Inr (vs ! j))"
proof (induction rs arbitrary: vs)
  case Nil
  then show ?case by simp
next
  case (Cons r rs)
  from Cons.prems obtain v ws where r: "r = Inr v" and c: "collect rs = Inr ws" and vs: "vs = v # ws"
    by (auto simp: and_then_def split: sum.splits)
  from Cons.IH [OF c] have "length ws = length rs" and n: "\<forall>j<length rs. rs ! j = Inr (ws ! j)"
    by simp_all
  then show ?case using r vs by (auto simp: nth_Cons split: nat.splits)
qed

lemma map_of_overwrite_same:
  "l \<in> set (map fst cs) \<Longrightarrow> map_of (map (\<lambda>(n, old). (n, if n = l then vs else old)) cs) l = Some vs"
  by (induction cs) auto

lemma map_of_overwrite_other:
  "l' \<noteq> l \<Longrightarrow> map_of (map (\<lambda>(n, old). (n, if n = l then vs else old)) cs) l' = map_of cs l'"
  by (induction cs) auto

lemma get_column_loc_set_same:
  assumes "loc_set_column df l vs = Inr df'"
  shows "get_column df' l = Inr vs"
proof (cases "l \<in> set (map fst (columns df))")
  case True
  with assms have "columns df' = map (\<lambda>(n, old). (n, if n = l then vs else old)) (columns df)"
    by (auto simp: loc_set_column_def split: if_splits)
  with True show ?thesis
    by (simp add: get_column_def map_of_overwrite_same)
next
  case False
  with assms have c: "columns df' = columns df @ [(l, vs)]"
    by (auto simp: loc_set_column_def split: if_splits)
  from False have "map_of (columns df) l = None"
    by (simp add: map_of_eq_None_iff)
  with c show ?thesis
    by (simp add: get_column_def map_add_def)
qed

lemma get_column_loc_set_other:
  assumes "loc_set_column df l vs = Inr df'" and "l' \<noteq> l"
  shows "get_column df' l' = get_column df l'"
proof (cases "l \<in> set (map fst (columns df))")
  case True
  with assms have "columns df' = map (\<lambda>(n, old). (n, if n = l then vs else old)) (columns df)"
    by (auto simp: loc_set_column_def split: if_splits)
  with assms(2) show ?thesis
    by (simp add: get_column_def map_of_overwrite_other)
next
  case False
  with assms have c: "columns df' = columns df @ [(l, vs)]"
    by (auto simp: loc_set_column_def split: if_splits)
  with assms(2) show ?thesis
    by (auto simp: get_column_def map_add_def split: option.splits)
qed

lemma map_of_filter_other:
  "l' \<noteq> l \<Longrightarrow> map_of (filter (\<lambda>c. fst c \<noteq> l) cs) l' = map_of cs l'"
  by (induction cs) auto

lemma get_column_set_index_other:
  assumes "set_index l df = Inr df'" and "l' \<noteq> l"
  shows "get_column df' l' = get_column df l'"
proof -
  from assms(1) have "columns df' = filter (\<lambda>c. fst c \<noteq> l) (columns df)"
    by (auto simp: set_index_def split: option.splits)
  with assms(2) show ?thesis
    by (simp add: get_column_def map_of_filter_other)
qed

section \<open>The columns \<^verbatim>\<open>FBProphet.predict\<close> returns\<close>

text \<open>
  Whenever \<^verbatim>\<open>predict\<close> returns, both bound columns of the result are the inverse
  transform of the model's \<^verbatim>\<open>yhat_upper\<close>, and \<^verbatim>\<open>yhat\<close> is the inverse transform of
  the model's \<^verbatim>\<open>yhat\<close>.
\<close>

lemma predict_bounds_from_upper:
  assumes "predict fbmodel_predict transformation_inverse future_dataframe extra_regressors = Inr out"
  shows "\<exists>future forecast upper.
           future_frame future_dataframe extra_regressors = Inr future \<and>
           fbmodel_predict future = Inr forecast \<and>
           get_column forecast ''yhat_upper'' = Inr upper \<and>
           get_column out ''yhat_lower'' = Inr (transformation_inverse upper) \<and>
           get_column out ''yhat_upper'' = Inr (transformation_inverse upper)"
proof -
  from assms obtain future forecast yhat f1 upper f2 upper2 f3 where
    fut: "future_frame future_dataframe extra_regressors = Inr future" and
    fc: "fbmodel_predict future = Inr forecast" and
    y: "get_column forecast ''yhat'' = Inr yhat" and
    s1: "loc_set_column forecast ''yhat'' (transformation_inverse yhat) = Inr f1" and
    u: "get_column f1 ''yhat_upper'' = Inr upper" and
    s2: "loc_set_column f1 ''yhat_lower'' (transformation_inverse upper) = Inr f2" and
    u2: "get_column f2 ''yhat_upper'' = Inr upper2" and
    s3: "loc_set_column f2 ''yhat_upper'' (transformation_inverse upper2) = Inr f3" and
    out: "set_index ''ds'' f3 = Inr out"
    unfolding predict_def and_then_Inr_iff by blast
  have "get_column forecast ''yhat_upper'' = Inr upper"
    using get_column_loc_set_other [OF s1, of "''yhat_upper''"] u by simp
  moreover have "upper2 = upper"
    using get_column_loc_set_other [OF s2, of "''yhat_upper''"] u u2 by simp
  moreover have "get_column out ''yhat_upper'' = Inr (transformation_inverse upper2)"
    using get_column_set_index_other [OF out, of "''yhat_upper''"] get_column_loc_set_same [OF s3]
    by simp
  moreover have "get_column out ''yhat_lower'' = Inr (transformation_inverse upper)"
    using get_column_set_index_other [OF out, of "''yhat_lower''"]
      get_column_loc_set_other [OF s3, of "''yhat_lower''"] get_column_loc_set_same [OF s2]
    by simp
  ultimately show ?thesis using fut fc by simp
qed

lemma predict_yhat:
  assumes "predict fbmodel_predict transformation_inverse future_dataframe extra_regressors = Inr out"
  shows "\<exists>future forecast yhat.
           future_frame future_dataframe extra_regressors = Inr future \<and>
           fbmodel_predict future = Inr forecast \<and>
           get_column forecast ''yhat'' = Inr yhat \<and>
           get_column out ''yhat'' = Inr (transformation_inverse yhat)"
proof -
  from assms obtain future forecast yhat f1 upper f2 upper2 f3 where
    fut: "future_frame future_dataframe extra_regressors = Inr future" and
    fc: "fbmodel_predict future = Inr forecast" and
    y: "get_column forecast ''yhat'' = Inr yhat" and
    s1: "loc_set_column forecast ''yhat'' (transformation_inverse yhat) = Inr f1" and
    u: "get_column f1 ''yhat_upper'' = Inr upper" and
    s2: "loc_set_column f1 ''yhat_lower'' (transformation_inverse upper) = Inr f2" and
    u2: "get_column f2 ''yhat_upper'' = Inr upper2" and
    s3: "loc_set_column f2 ''yhat_upper'' (transformation_inverse upper2) = Inr f3" and
    out: "set_index ''ds'' f3 = Inr out"
    unfolding predict_def and_then_Inr_iff by blast
  have "get_column out ''yhat'' = Inr (transformation_inverse yhat)"
    using get_column_set_index_other [OF out, of "''yhat''"]
      get_column_loc_set_other [OF s3, of "''yhat''"]
      get_column_loc_set_other [OF s2, of "''yhat''"] get_column_loc_set_same [OF s1]
    by simp
  then show ?thesis using fut fc y by simp
qed

text \<open>
  C1 (the returned \<^verbatim>\<open>yhat_lower\<close> is the inverse transform of the model's
  \<^verbatim>\<open>yhat_lower\<close>): the code does not do so. With the identity as inverse and a model
  forecast whose lower bound is 1, whose upper bound is 3 and whose \<^verbatim>\<open>yhat\<close> is 2, the
  returned \<^verbatim>\<open>yhat_lower\<close> is 3, the model's upper bound, where the claim gives 1;
  \<^verbatim>\<open>yhat\<close> and \<^verbatim>\<open>yhat_upper\<close> are as claimed.
\<close>

theorem predict_yhat_lower_is_upper:
  "predict
     (\<lambda>future. Inr \<lparr>index_name = None, index = [Num 0],
                     columns = [(''ds'', [Num 7]), (''yhat_lower'', [Num 1]),
                                (''yhat_upper'', [Num 3]), (''yhat'', [Num 2])]\<rparr>)
     (\<lambda>s. s)
     \<lparr>index_name = None, index = [Num 7], columns = []\<rparr> None
   = Inr \<lparr>index_name = Some ''ds'', index = [Num 7],
          columns = [(''yhat_lower'', [Num 3]), (''yhat_upper'', [Num 3]), (''yhat'', [Num 2])]\<rparr>"
  by (simp add: predict_def future_frame_def reset_index_def rename_columns_def and_then_def
      get_column_def loc_set_column_def set_index_def range_index_def)

section \<open>The transforms\<close>

text \<open>
  C8: the \<^verbatim>\<open>log\<close> transform of a series is \<open>sign(x) * ln(|x|)\<close> at every point,
  with 0 at \<open>x = 0\<close>. On \<open>[-4 .. 4]\<close> it yields
  \<open>[-ln 4, -ln 3, -ln 2, 0, 0, 0, ln 2, ln 3, ln 4]\<close>: the inputs \<open>-1\<close>, \<open>0\<close> and \<open>1\<close>
  all map to 0. Between them the transform is not 0: \<open>1/2\<close> maps to \<open>-ln 2\<close>.
\<close>

theorem pre_transformation_log_example:
  "pre_transformation xs Log = map (\<lambda>x. if x = 0 then 0 else sgn x * ln \<bar>x\<bar>) xs \<and>
   pre_transformation [- 4, - 3, - 2, - 1, 0, 1, 2, 3, 4] Log =
     [- ln 4, - ln 3, - ln 2, 0, 0, 0, ln 2, ln 3, ln 4] \<and>
   pre_transformation [- 1, 0, 1] Log = [0, 0, 0] \<and>
   pre_transformation [1 / 2, - 1 / 2] Log = [- ln 2, ln 2]"
proof -
  have half: "ln (1 / 2 :: real) = - ln 2"
    by (simp add: ln_div)
  show ?thesis
    by (simp add: pre_transformation_def transform_apply_def half)
qed

subsection \<open>Round trips in exact arithmetic\<close>

text \<open>
  Over the real numbers the formulas of \<^verbatim>\<open>log_modified\<close> invert each other at every
  \<open>x\<close>, and those of \<^verbatim>\<open>log\<close> do so exactly where \<open>x = 0\<close> or \<open>|x| > 1\<close>: the round trip
  gives 0 at \<open>x = 1\<close> and \<open>x = -1\<close>, and \<open>-1/x\<close> where \<open>0 < |x| < 1\<close>. These are
  facts about the formulas; they do not bound the rounding error of their evaluation in
  floating point.
\<close>

lemma log_modified_round_trip: "transform_invert LogModified (transform_apply LogModified x) = x"
proof -
  consider "x = 0" | "0 < x" | "x < 0" by linarith
  then show ?thesis
  proof cases
    case 1
    then show ?thesis by (simp add: transform_apply_def transform_invert_def)
  next
    case 2
    then have "0 < ln (x + 1)" by simp
    with 2 show ?thesis by (simp add: transform_apply_def transform_invert_def)
  next
    case 3
    then have "0 < ln (- x + 1)" by simp
    with 3 show ?thesis by (simp add: transform_apply_def transform_invert_def)
  qed
qed

lemma log_round_trip_value:
  "transform_invert Log (transform_apply Log x) =
     (if x = 0 \<or> \<bar>x\<bar> = 1 then 0 else if 1 < \<bar>x\<bar> then x else - 1 / x)"
proof -
  consider "x = 0" | "\<bar>x\<bar> = 1" | "1 < x" | "x < - 1" | "0 < x" "x < 1" | "- 1 < x" "x < 0"
    by linarith
  then show ?thesis
  proof cases
    case 1
    then show ?thesis by (simp add: transform_apply_def transform_invert_def)
  next
    case 2
    then show ?thesis by (auto simp: transform_apply_def transform_invert_def abs_if split: if_splits)
  next
    case 3
    then have "0 < ln x" by simp
    with 3 show ?thesis by (simp add: transform_apply_def transform_invert_def)
  next
    case 4
    then have "0 < ln (- x)" by simp
    with 4 show ?thesis by (simp add: transform_apply_def transform_invert_def)
  next
    case 5
    then have "ln x < 0" by simp
    with 5 show ?thesis by (simp add: transform_apply_def transform_invert_def exp_minus inverse_eq_divide)
  next
    case 6
    then have "ln (- x) < 0" by simp
    with 6 show ?thesis by (simp add: transform_apply_def transform_invert_def exp_minus inverse_eq_divide)
  qed
qed

section \<open>The best lag of \<^verbatim>\<open>cross_correlation_graph\<close>\<close>

lemma nanargmax_from_first_max:
  assumes "length pre = k" and "best < k" and "(pre @ vs) ! best = Num m"
    and "\<forall>j<k. \<forall>v. (pre @ vs) ! j = Num v \<longrightarrow> v \<le> m"
    and "\<forall>j<best. \<forall>v. (pre @ vs) ! j = Num v \<longrightarrow> v < m"
  shows "\<exists>m'. nanargmax_from best m k vs < length (pre @ vs) \<and>
           (pre @ vs) ! nanargmax_from best m k vs = Num m' \<and>
           (\<forall>j<length (pre @ vs). \<forall>v. (pre @ vs) ! j = Num v \<longrightarrow> v \<le> m') \<and>
           (\<forall>j<nanargmax_from best m k vs. \<forall>v. (pre @ vs) ! j = Num v \<longrightarrow> v < m')"
  using assms
proof (induction vs arbitrary: pre k best m)
  case Nil
  then show ?case by auto
next
  case (Cons c vs)
  let ?ws = "(pre @ [c]) @ vs"
  have len: "length (pre @ [c]) = Suc k" using Cons.prems(1) by simp
  have at_k: "?ws ! k = c" using Cons.prems(1) by (simp add: nth_append)
  have before: "\<forall>j<k. \<forall>u. ?ws ! j = Num u \<longrightarrow> u \<le> m" using Cons.prems(4) by simp
  show ?case
  proof (cases "\<exists>v. c = Num v \<and> m < v")
    case True
    then obtain v where c: "c = Num v" and gt: "m < v" by blast
    have a: "?ws ! k = Num v" using at_k c by simp
    have b: "\<forall>j<Suc k. \<forall>u. ?ws ! j = Num u \<longrightarrow> u \<le> v"
      using before a gt by (auto simp: less_Suc_eq)
    have c': "\<forall>j<k. \<forall>u. ?ws ! j = Num u \<longrightarrow> u < v"
      using before gt by fastforce
    from Cons.IH [OF len _ a b c'] c gt show ?thesis by simp
  next
    case False
    then have step: "nanargmax_from best m k (c # vs) = nanargmax_from best m (Suc k) vs"
      by (cases c) auto
    have a: "?ws ! best = Num m" using Cons.prems(3) by simp
    have b: "\<forall>j<Suc k. \<forall>u. ?ws ! j = Num u \<longrightarrow> u \<le> m"
      using before at_k False by (auto simp: less_Suc_eq)
    have c': "\<forall>j<best. \<forall>u. ?ws ! j = Num u \<longrightarrow> u < m"
      using Cons.prems(5) by simp
    from Cons.prems(2) have "best < Suc k" by simp
    from Cons.IH [OF len this a b c'] step show ?thesis by simp
  qed
qed

lemma nanargmax_at_first_max:
  assumes "nanargmax_at k vs = Inr i" and "length pre = k"
    and "\<forall>j<k. \<forall>v. (pre @ vs) ! j \<noteq> Num v"
  shows "\<exists>m. i < length (pre @ vs) \<and> (pre @ vs) ! i = Num m \<and>
           (\<forall>j<length (pre @ vs). \<forall>v. (pre @ vs) ! j = Num v \<longrightarrow> v \<le> m) \<and>
           (\<forall>j<i. \<forall>v. (pre @ vs) ! j = Num v \<longrightarrow> v < m)"
  using assms
proof (induction vs arbitrary: pre k)
  case Nil
  then show ?case by simp
next
  case (Cons c vs)
  let ?ws = "(pre @ [c]) @ vs"
  have len: "length (pre @ [c]) = Suc k" using Cons.prems(2) by simp
  have at_k: "?ws ! k = c" using Cons.prems(2) by (simp add: nth_append)
  have before: "\<forall>j<k. \<forall>u. ?ws ! j \<noteq> Num u" using Cons.prems(3) by simp
  show ?case
  proof (cases "\<exists>v. c = Num v")
    case True
    then obtain v where c: "c = Num v" ..
    with Cons.prems(1) have i: "i = nanargmax_from k v (Suc k) vs" by simp
    have a: "?ws ! k = Num v" using at_k c by simp
    have b: "\<forall>j<Suc k. \<forall>u. ?ws ! j = Num u \<longrightarrow> u \<le> v"
      using before a by (auto simp: less_Suc_eq)
    have c': "\<forall>j<k. \<forall>u. ?ws ! j = Num u \<longrightarrow> u < v"
      using before by simp
    from nanargmax_from_first_max [OF len _ a b c'] i show ?thesis by simp
  next
    case False
    with Cons.prems(1) have r: "nanargmax_at (Suc k) vs = Inr i" by (cases c) auto
    have "\<forall>j<Suc k. \<forall>u. ?ws ! j \<noteq> Num u"
      using before at_k False by (auto simp: less_Suc_eq)
    from Cons.IH [OF r len this] show ?thesis by simp
  qed
qed

lemma nanargmax_first_max:
  assumes "nanargmax_at 0 vs = Inr i"
  shows "\<exists>m. i < length vs \<and> vs ! i = Num m \<and>
           (\<forall>j<length vs. \<forall>v. vs ! j = Num v \<longrightarrow> v \<le> m) \<and>
           (\<forall>j<i. \<forall>v. vs ! j = Num v \<longrightarrow> v < m)"
  using nanargmax_at_first_max [OF assms, of "[]"] by simp

lemma series_abs_nth:
  assumes "series_abs vs = Inr avs"
  shows "length avs = length vs" and "\<And>j. j < length vs \<Longrightarrow> cell_abs (vs ! j) = Inr (avs ! j)"
  using collect_Inr_nth [OF assms [unfolded series_abs_def]] by simp_all

lemma cell_abs_Num: "cell_abs c = Inr (Num a) \<Longrightarrow> \<exists>v. c = Num v \<and> a = \<bar>v\<bar>"
  by (cases c) auto

lemma nanargmax_at_Inl: "nanargmax_at k vs = Inl e \<Longrightarrow> Num v \<notin> set vs"
proof (induction vs arbitrary: k)
  case Nil
  then show ?case by simp
next
  case (Cons c vs)
  then show ?case by (cases c) auto
qed

lemma loc_cell_member:
  assumes "loc_cell df label col = Inr corr" and "get_column df col = Inr vs"
  shows "corr \<in> set vs"
proof -
  from assms obtain row where
    f: "filter (\<lambda>row. fst row = label) (zip (index df) vs) = [row]" and c: "corr = snd row"
    by (auto simp: loc_cell_def and_then_def split: list.splits)
  have "row \<in> set (filter (\<lambda>row. fst row = label) (zip (index df) vs))"
    unfolding f by simp
  then have "row \<in> set (zip (index df) vs)" by simp
  then have "snd row \<in> set vs" by (metis prod.collapse set_zip_rightD)
  with c show ?thesis by simp
qed

lemma loc_cell_unique:
  assumes "loc_cell df label col = Inr corr" and "get_column df col = Inr vs"
    and "length vs = length (index df)" and "i < length vs" and "index df ! i = label"
  shows "corr = vs ! i" and "\<And>j. j < length vs \<Longrightarrow> index df ! j = label \<Longrightarrow> j = i"
proof -
  let ?rows = "zip (index df) vs"
  from assms(1,2) obtain row where f: "filter (\<lambda>row. fst row = label) ?rows = [row]" and c: "corr = snd row"
    by (auto simp: loc_cell_def and_then_def split: list.splits)
  have len: "length ?rows = length vs" using assms(3) by simp
  have nth: "\<And>j. j < length vs \<Longrightarrow> ?rows ! j = (index df ! j, vs ! j)" using assms(3) by simp
  have one: "length (filter (\<lambda>row. fst row = label) ?rows) = 1" using f by simp
  have uniq: "j = i" if j: "j < length vs" "index df ! j = label" for j
  proof (rule ccontr)
    assume ne: "j \<noteq> i"
    define P where "P = (\<lambda>row :: cell \<times> cell. fst row = label)"
    have Pi: "P (?rows ! i)" and Pj: "P (?rows ! j)" using nth assms(4,5) j by (simp_all add: P_def)
    have "card {k. k < length ?rows \<and> P (?rows ! k)} = 1"
      using one by (simp add: length_filter_conv_card P_def)
    moreover have "{i, j} \<subseteq> {k. k < length ?rows \<and> P (?rows ! k)}"
      using Pi Pj len assms(4) j(1) by auto
    ultimately have "card {i, j} \<le> 1"
      by (metis (no_types, lifting) card_mono card.infinite zero_neq_one)
    with ne show False by simp
  qed
  show "\<And>j. j < length vs \<Longrightarrow> index df ! j = label \<Longrightarrow> j = i" by (rule uniq)
  have "?rows ! i \<in> set (filter (\<lambda>row. fst row = label) ?rows)"
    using nth [OF assms(4)] assms(4,5) len by (simp add: nth_mem [of i ?rows, simplified])
       (metis len assms(4) nth_mem nth [OF assms(4)])
  with f have "row = ?rows ! i" by simp
  with c nth [OF assms(4)] show "corr = vs ! i" by simp
qed


text \<open>
  C4, as amended (the claim breaks ties by the smallest absolute lag): when an edge is
  drawn for a column, its lag is the label of the first row, in the row order of the
  frame, at which the absolute correlation is greatest among the values that are not
  missing: every row has an absolute correlation at most that of the row reported, and
  every earlier row a strictly smaller one. No other row carries that label, and the
  absolute correlation exceeds the threshold.
\<close>

theorem best_lag_first_maximum:
  assumes "cross_correlation_edge xc threshold col = Inr (Some (c, lag))"
    and "get_column xc col = Inr vs"
    and "length vs = length (index xc)"
  shows "\<exists>i<length vs. index xc ! i = lag \<and> vs ! i = Num c \<and>
           (\<forall>j<length vs. index xc ! j = lag \<longrightarrow> j = i) \<and>
           (\<forall>j<length vs. \<forall>v. vs ! j = Num v \<longrightarrow> \<bar>v\<bar> \<le> \<bar>c\<bar>) \<and>
           (\<forall>j<i. \<forall>v. vs ! j = Num v \<longrightarrow> \<bar>v\<bar> < \<bar>c\<bar>) \<and>
           (\<exists>t. threshold = Some t \<and> t < \<bar>c\<bar>)"
proof -
  from assms(1,2) obtain avs label corr where
    av: "series_abs vs = Inr avs" and
    im: "idxmax (index xc) avs = Inr label" and
    lc: "loc_cell xc label col = Inr corr" and
    fin: "(case corr of
             Num c' \<Rightarrow> (case threshold of None \<Rightarrow> Inl TypeError
                        | Some t \<Rightarrow> Inr (if t < \<bar>c'\<bar> then Some (c', label) else None))
           | NaN \<Rightarrow> (case threshold of None \<Rightarrow> Inl TypeError | Some t \<Rightarrow> Inr None)
           | Str s \<Rightarrow> Inl TypeError) = Inr (Some (c, lag))"
    unfolding cross_correlation_edge_def and_then_Inr_iff by auto
  from fin obtain t where
    cn: "corr = Num c" and t: "threshold = Some t" "t < \<bar>c\<bar>" and lag: "lag = label"
    by (auto split: cell.splits option.splits if_splits)
  note ab = series_abs_nth [OF av]
  have "\<exists>i. nanargmax_at 0 avs = Inr i"
  proof (cases "nanargmax_at 0 avs")
    case (Inl e)
    from loc_cell_member [OF lc assms(2)] cn obtain j where
      j: "j < length vs" "vs ! j = Num c"
      by (auto simp: in_set_conv_nth)
    from ab(2) [OF j(1)] j(2) have "avs ! j = Num \<bar>c\<bar>" by simp
    with j(1) ab(1) have "Num \<bar>c\<bar> \<in> set avs" by (metis nth_mem)
    with nanargmax_at_Inl [OF Inl] show ?thesis by blast
  next
    case (Inr i)
    then show ?thesis by blast
  qed
  then obtain i where i: "nanargmax_at 0 avs = Inr i" ..
  with im have label: "label = index xc ! i" by (simp add: idxmax_def)
  from nanargmax_first_max [OF i] obtain m where
    ilen: "i < length avs" and mi: "avs ! i = Num m" and
    mx: "\<forall>j<length avs. \<forall>v. avs ! j = Num v \<longrightarrow> v \<le> m" and
    fst: "\<forall>j<i. \<forall>v. avs ! j = Num v \<longrightarrow> v < m"
    by blast
  from ilen ab(1) have iv: "i < length vs" by simp
  from cell_abs_Num [of "vs ! i" m] ab(2) [OF iv] mi obtain ci where
    ci: "vs ! i = Num ci" and m: "m = \<bar>ci\<bar>" by auto
  from loc_cell_unique [OF lc assms(2,3) iv] label have
    corr: "corr = vs ! i" and uniq: "\<And>j. j < length vs \<Longrightarrow> index xc ! j = label \<Longrightarrow> j = i"
    by simp_all
  from cn corr ci have c: "c = ci" by simp
  have le: "\<bar>v\<bar> \<le> \<bar>c\<bar>" if "j < length vs" "vs ! j = Num v" for j v
  proof -
    from ab(2) [OF that(1)] that(2) have "avs ! j = Num \<bar>v\<bar>" by simp
    with mx that(1) ab(1) m c show ?thesis by simp
  qed
  have lt: "\<bar>v\<bar> < \<bar>c\<bar>" if "j < i" "vs ! j = Num v" for j v
  proof -
    from that(1) iv have j: "j < length vs" by simp
    from ab(2) [OF j] that(2) have "avs ! j = Num \<bar>v\<bar>" by simp
    with fst that(1) m c show ?thesis by simp
  qed
  from iv label lag ci c uniq le lt t show ?thesis by blast
qed

text \<open>The theorem on a column whose greatest absolute correlation is at lag 0.\<close>

theorem best_lag_first_maximum_witness:
  "cross_correlation_edge
     \<lparr>index_name = None, index = [Num (- 1), Num 0, Num 1],
      columns = [(''y'', [Num (1 / 4), Num (- 1 / 2), Num (1 / 2)])]\<rparr> (Some 0) ''y''
     = Inr (Some (- 1 / 2, Num 0)) \<and>
   (\<exists>i<length [Num (1 / 4), Num (- 1 / 2), Num (1 / 2 :: real)].
      [Num (- 1), Num 0, Num 1] ! i = Num 0 \<and>
      [Num (1 / 4), Num (- 1 / 2), Num (1 / 2 :: real)] ! i = Num (- 1 / 2))"
proof -
  let ?xc = "\<lparr>index_name = None, index = [Num (- 1), Num 0, Num 1],
              columns = [(''y'', [Num (1 / 4), Num (- 1 / 2), Num (1 / 2)])]\<rparr>"
  have e: "cross_correlation_edge ?xc (Some 0) ''y'' = Inr (Some (- 1 / 2, Num 0))"
    by (simp add: cross_correlation_edge_def and_then_def get_column_def series_abs_def
        idxmax_def loc_cell_def)
  have g: "get_column ?xc ''y'' = Inr [Num (1 / 4), Num (- 1 / 2), Num (1 / 2)]"
    by (simp add: get_column_def)
  have l: "length [Num (1 / 4), Num (- 1 / 2), Num (1 / 2 :: real)] = length (index ?xc)"
    by simp
  from best_lag_first_maximum [OF e g l] e show ?thesis by auto
qed

text \<open>
  C4 as stated fails on a tie: with the correlation \<open>1/2\<close> at the lags \<open>-1\<close> and \<open>0\<close>
  the code reports the lag \<open>-1\<close>, the first row, and not the lag \<open>0\<close> of smallest
  absolute value.
\<close>

theorem best_lag_tie_not_smallest_lag:
  "cross_correlation_edge
     \<lparr>index_name = None, index = [Num (- 1), Num 0, Num 1],
      columns = [(''y'', [Num (1 / 2), Num (1 / 2), Num (1 / 10)])]\<rparr> (Some 0) ''y''
     = Inr (Some (1 / 2, Num (- 1))) \<and>
   loc_cell
     \<lparr>index_name = None, index = [Num (- 1), Num 0, Num 1],
      columns = [(''y'', [Num (1 / 2), Num (1 / 2), Num (1 / 10)])]\<rparr> (Num 0) ''y''
     = Inr (Num (1 / 2))"
  by (simp add: cross_correlation_edge_def and_then_def get_column_def series_abs_def
      idxmax_def loc_cell_def)

section \<open>The report on a model's results\<close>

lemma sort_results_Inr:
  assumes "sort_results est rs = Inr rs'"
  shows "mset rs' = mset rs"
    and "\<exists>ks. map (\<lambda>r. getattr_metric (testing_performances r) (upper est)) rs' = map Inr ks \<and> sorted ks"
proof -
  let ?key = "\<lambda>r. getattr_metric (testing_performances r) (upper est)"
  from assms obtain keys where c: "collect (map ?key rs) = Inr keys"
    and rs': "rs' = map snd (sort_key fst (zip keys rs))"
    unfolding sort_results_def and_then_Inr_iff by auto
  from collect_Inr_nth [OF c] have len: "length keys = length rs"
    and key: "\<forall>j<length rs. ?key (rs ! j) = Inr (keys ! j)" by simp_all
  have "mset rs' = image_mset snd (mset (sort_key fst (zip keys rs)))"
    by (simp add: rs')
  also have "\<dots> = mset (map snd (zip keys rs))" by simp
  also have "\<dots> = mset rs" using len by simp
  finally show "mset rs' = mset rs" .
  have pair: "?key r = Inr k" if "(k, r) \<in> set (zip keys rs)" for k r
  proof -
    from that obtain j where "j < length (zip keys rs)" "zip keys rs ! j = (k, r)"
      by (auto simp: in_set_conv_nth)
    with len key show ?thesis by auto
  qed
  let ?srt = "sort_key fst (zip keys rs)"
  have "map ?key rs' = map Inr (map fst ?srt)"
    unfolding rs' using pair by auto
  moreover have "sorted (map fst ?srt)" by (rule sorted_sort_key)
  ultimately show "\<exists>ks. map ?key rs' = map Inr ks \<and> sorted ks" by blast
qed

lemma iloc_set_first_column_Inr:
  assumes "iloc_set_first_column df v = Inr pd"
  shows "index pd = index df" and "index_name pd = index_name df"
    and "map fst (columns pd) = map fst (columns df)"
    and "tl (columns pd) = tl (columns df)"
    and "columns df \<noteq> []"
    and "snd (hd (columns pd)) = map (\<lambda>_. v) (snd (hd (columns df)))"
  using assms by (auto simp: iloc_set_first_column_def split: list.splits)

lemma performance_plot_Inr:
  assumes "performance_plot h a tps = Inr (traces, h')"
  shows "\<exists>pd. iloc_set_first_column (h ! a) (Str ''nan'') = Inr pd \<and> h' = h[a := pd]"
    and "list_all (\<lambda>tr. length (trace_y tr) = length tps) (take 3 traces)"
  using assms by (auto simp: performance_plot_def Let_def and_then_Inr_iff)

lemma scenario_model_children_results:
  "mset (results (scenario_model_children mc mp rs h)) = mset rs"
  by (auto simp: scenario_model_children_def Let_def dest: sort_results_Inr(1)
      split: option.splits sum.splits list.splits prod.splits)

lemma scenario_model_children_frames:
  "frames (scenario_model_children mc mp rs h) = h \<or>
   (\<exists>best rest pd. results (scenario_model_children mc mp rs h) = best # rest \<and>
      iloc_set_first_column (h ! prediction best) (Str ''nan'') = Inr pd \<and>
      frames (scenario_model_children mc mp rs h) = h[prediction best := pd])"
  by (auto simp: scenario_model_children_def Let_def dest: performance_plot_Inr(1)
      split: option.splits sum.splits list.splits prod.splits)

lemma scenario_model_children_Inr:
  assumes "children (scenario_model_children mc mp rs h) = Inr ch"
  shows "\<exists>tv est best rest h'.
           mc ''test_values'' = Some tv \<and>
           mp ''main_accuracy_estimator'' = Some est \<and>
           sort_results est rs = Inr (best # rest) \<and>
           results (scenario_model_children mc mp rs h) = best # rest \<and>
           errors_shown ch = show_errors (testing_performances best) \<and>
           prediction_plot (h ! prediction best) = Inr (prediction_graph ch) \<and>
           performance_plot h (prediction best) (map testing_performances (best # rest))
             = Inr (performance_graph ch, h') \<and>
           frames (scenario_model_children mc mp rs h) = h'"
  using assms
  by (auto simp: scenario_model_children_def Let_def characteristics_list_def
      split: option.splits sum.splits list.splits prod.splits)







text \<open>
  C7, as amended (the claim has no step of the report modify a prediction): whatever
  the outcome, the report leaves the same results in the list (their metrics and the
  frames they refer to unchanged, only the order changes), allocates no frame, and leaves
  every frame unchanged but the prediction of the first result after sorting; of any frame
  it preserves the index, the index name, the column names and every column but the
  first. When the report completes, the first column of the best result's prediction
  holds the string \<^verbatim>\<open>nan\<close> in every row.
\<close>

theorem report_changes_only_best_prediction:
  "mset (results (scenario_model_children mc mp rs h)) = mset rs \<and>
   length (frames (scenario_model_children mc mp rs h)) = length h \<and>
   (\<forall>a. a \<notin> set (map prediction (take 1 (results (scenario_model_children mc mp rs h)))) \<longrightarrow>
        frames (scenario_model_children mc mp rs h) ! a = h ! a) \<and>
   (\<forall>a<length h.
        index (frames (scenario_model_children mc mp rs h) ! a) = index (h ! a) \<and>
        index_name (frames (scenario_model_children mc mp rs h) ! a) = index_name (h ! a) \<and>
        map fst (columns (frames (scenario_model_children mc mp rs h) ! a)) = map fst (columns (h ! a)) \<and>
        tl (columns (frames (scenario_model_children mc mp rs h) ! a)) = tl (columns (h ! a))) \<and>
   (\<forall>ch best rest.
        children (scenario_model_children mc mp rs h) = Inr ch \<and>
        results (scenario_model_children mc mp rs h) = best # rest \<and> prediction best < length h \<longrightarrow>
        snd (hd (columns (frames (scenario_model_children mc mp rs h) ! prediction best)))
          = map (\<lambda>_. Str ''nan'') (snd (hd (columns (h ! prediction best)))))"
proof -
  let ?out = "scenario_model_children mc mp rs h"
  have res: "mset (results ?out) = mset rs"
    by (rule scenario_model_children_results)
  from scenario_model_children_frames [of mc mp rs h]
  consider (same) "frames ?out = h"
    | (upd) best rest pd where "results ?out = best # rest"
        "iloc_set_first_column (h ! prediction best) (Str ''nan'') = Inr pd"
        "frames ?out = h[prediction best := pd]"
    by blast
  then have fr: "length (frames ?out) = length h \<and>
      (\<forall>a. a \<notin> set (map prediction (take 1 (results ?out))) \<longrightarrow> frames ?out ! a = h ! a) \<and>
      (\<forall>a<length h.
        index (frames ?out ! a) = index (h ! a) \<and>
        index_name (frames ?out ! a) = index_name (h ! a) \<and>
        map fst (columns (frames ?out ! a)) = map fst (columns (h ! a)) \<and>
        tl (columns (frames ?out ! a)) = tl (columns (h ! a)))"
  proof cases
    case same
    then show ?thesis by simp
  next
    case upd
    note pd = iloc_set_first_column_Inr [OF upd(2)]
    have "frames ?out ! a = h ! a" if "a \<notin> set (map prediction (take 1 (results ?out)))" for a
      using that upd(1,3) by simp
    moreover have "index (frames ?out ! a) = index (h ! a) \<and>
        index_name (frames ?out ! a) = index_name (h ! a) \<and>
        map fst (columns (frames ?out ! a)) = map fst (columns (h ! a)) \<and>
        tl (columns (frames ?out ! a)) = tl (columns (h ! a))" if "a < length h" for a
      using that upd(3) pd(1-4) by (cases "a = prediction best") simp_all
    ultimately show ?thesis using upd(3) by simp
  qed
  have nan: "snd (hd (columns (frames ?out ! prediction best)))
          = map (\<lambda>_. Str ''nan'') (snd (hd (columns (h ! prediction best))))"
    if ch: "children ?out = Inr ch" and r: "results ?out = best # rest"
      and v: "prediction best < length h" for ch best rest
  proof -
    from scenario_model_children_Inr [OF ch] r obtain h' where
      "performance_plot h (prediction best) (map testing_performances (best # rest))
         = Inr (performance_graph ch, h')" and "frames ?out = h'"
      by auto
    with performance_plot_Inr(1) obtain pd where
      pd: "iloc_set_first_column (h ! prediction best) (Str ''nan'') = Inr pd"
      and "frames ?out = h[prediction best := pd]"
      by blast
    with v iloc_set_first_column_Inr(6) [OF pd] show ?thesis by simp
  qed
  from res fr nan show ?thesis by blast
qed

text \<open>
  The theorem on the two results: the frame of the result that is not the best one is
  untouched.
\<close>

theorem report_changes_only_best_prediction_witness:
  "0 \<notin> set (map prediction (take 1 (results (scenario_model_children [''test_values'' \<mapsto> 10]
        [''main_accuracy_estimator'' \<mapsto> ''mae''] report_example_results report_example_frames)))) \<and>
   frames (scenario_model_children [''test_values'' \<mapsto> 10]
        [''main_accuracy_estimator'' \<mapsto> ''mae''] report_example_results report_example_frames) ! 0
     = report_example_frames ! 0"
proof -
  have "0 \<notin> set (map prediction (take 1 (results (scenario_model_children [''test_values'' \<mapsto> 10]
        [''main_accuracy_estimator'' \<mapsto> ''mae''] report_example_results report_example_frames))))"
    by (simp add: scenario_model_children_def sort_results_def upper_def upper_char_def
        getattr_metric_def and_then_def characteristics_list_def prediction_plot_def
        performance_plot_def get_column_def iloc_set_first_column_def
        report_example_results_def report_example_frames_def Let_def)
  with report_changes_only_best_prediction [of "[''test_values'' \<mapsto> 10]"
      "[''main_accuracy_estimator'' \<mapsto> ''mae'']" report_example_results report_example_frames]
  show ?thesis by blast
qed

text \<open>
  C7 as stated fails on the same two results: the best one (MAE 1) refers to the frame at
  address 1, whose column \<^verbatim>\<open>yhat\<close> is \<open>[3, 4]\<close> before the report and
  \<^verbatim>\<open>["nan", "nan"]\<close> after it.
\<close>

theorem report_overwrites_best_prediction:
  "get_column (report_example_frames ! 1) ''yhat'' = Inr [Num 3, Num 4] \<and>
   get_column (frames (scenario_model_children [''test_values'' \<mapsto> 10]
        [''main_accuracy_estimator'' \<mapsto> ''mae''] report_example_results report_example_frames) ! 1)
     ''yhat'' = Inr [Str ''nan'', Str ''nan'']"
  by (simp add: scenario_model_children_def sort_results_def upper_def upper_char_def
      getattr_metric_def and_then_def characteristics_list_def prediction_plot_def
      performance_plot_def get_column_def iloc_set_first_column_def
      report_example_results_def report_example_frames_def Let_def)

section \<open>The frames \<^verbatim>\<open>FBProphet.train\<close> writes\<close>

lemma heap_fit_model: "heap (fit_model prophet_fit regressors h df) = h"
  by (simp add: fit_model_def split: sum.splits)

lemma train_with_regressors_keeps_heap:
  "take (length h) (heap (train prophet_fit h input_data (Some extra))) = h"
  by (simp add: train_def Let_def heap_fit_model split: sum.splits)

lemma reset_index_columns:
  "reset_index df = Inr df1 \<Longrightarrow> length (columns df1) = Suc (length (columns df))"
  by (auto simp: reset_index_def Let_def split: if_splits)

lemma train_without_regressors_heap:
  assumes "reset_index (h ! input_data) = Inr df1"
  shows "heap (train prophet_fit h input_data None) =
           h[input_data := (if length (columns df1) = 2
                            then df1\<lparr>columns := zip [''ds'', ''y''] (map snd (columns df1))\<rparr>
                            else df1)]"
  using assms by (simp add: train_def Let_def set_columns_def heap_fit_model)

lemma train_without_regressors_raised:
  assumes "reset_index (h ! input_data) = Inr df1"
  shows "raised (train prophet_fit h input_data None) =
           (if length (columns df1) = 2
            then (case prophet_fit [] (df1\<lparr>columns := zip [''ds'', ''y''] (map snd (columns df1))\<rparr>) of
                    Inl e \<Rightarrow> Some e
                  | Inr fitted \<Rightarrow> None)
            else Some ValueError)"
  using assms by (simp add: train_def Let_def set_columns_def fit_model_def split: sum.splits)

text \<open>
  C10, as amended (the claim has the caller's frame altered after every call): with
  extra regressors, every frame that existed before the call, the caller's among them, is
  unchanged, since the in-place calls work on the frame \<^verbatim>\<open>join\<close> created. Without
  extra regressors the caller's frame is altered whenever \<^verbatim>\<open>reset_index\<close> succeeds:
  the index becomes a column, and the (then two) columns are named \<^verbatim>\<open>ds\<close> and
  \<^verbatim>\<open>y\<close>, after which \<^verbatim>\<open>train\<close> raises only what the fit raises; when the frame
  does not have two columns then, it keeps the reset index and \<^verbatim>\<open>train\<close> raises
  ValueError. When \<^verbatim>\<open>reset_index\<close> raises, nothing is altered and \<^verbatim>\<open>train\<close> raises
  that exception.
\<close>

theorem train_alters_caller_frame_only_without_regressors:
  "take (length h) (heap (train prophet_fit h input_data (Some extra))) = h \<and>
   (input_data < length h \<longrightarrow>
      (case reset_index (h ! input_data) of
         Inl e \<Rightarrow>
           heap (train prophet_fit h input_data None) = h \<and>
           raised (train prophet_fit h input_data None) = Some e
       | Inr df1 \<Rightarrow>
           heap (train prophet_fit h input_data None) =
             h[input_data := (if length (columns df1) = 2
                              then df1\<lparr>columns := zip [''ds'', ''y''] (map snd (columns df1))\<rparr>
                              else df1)] \<and>
           heap (train prophet_fit h input_data None) ! input_data \<noteq> h ! input_data \<and>
           raised (train prophet_fit h input_data None) =
             (if length (columns df1) = 2
              then (case prophet_fit [] (df1\<lparr>columns := zip [''ds'', ''y''] (map snd (columns df1))\<rparr>) of
                      Inl e \<Rightarrow> Some e
                    | Inr fitted \<Rightarrow> None)
              else Some ValueError)))"
proof (intro conjI impI)
  show "take (length h) (heap (train prophet_fit h input_data (Some extra))) = h"
    by (rule train_with_regressors_keeps_heap)
next
  assume valid: "input_data < length h"
  show "case reset_index (h ! input_data) of
         Inl e \<Rightarrow>
           heap (train prophet_fit h input_data None) = h \<and>
           raised (train prophet_fit h input_data None) = Some e
       | Inr df1 \<Rightarrow>
           heap (train prophet_fit h input_data None) =
             h[input_data := (if length (columns df1) = 2
                              then df1\<lparr>columns := zip [''ds'', ''y''] (map snd (columns df1))\<rparr>
                              else df1)] \<and>
           heap (train prophet_fit h input_data None) ! input_data \<noteq> h ! input_data \<and>
           raised (train prophet_fit h input_data None) =
             (if length (columns df1) = 2
              then (case prophet_fit [] (df1\<lparr>columns := zip [''ds'', ''y''] (map snd (columns df1))\<rparr>) of
                      Inl e \<Rightarrow> Some e
                    | Inr fitted \<Rightarrow> None)
              else Some ValueError)"
  proof (cases "reset_index (h ! input_data)")
    case (Inl e)
    then show ?thesis by (simp add: train_def)
  next
    case (Inr df1)
    let ?new = "if length (columns df1) = 2
                then df1\<lparr>columns := zip [''ds'', ''y''] (map snd (columns df1))\<rparr> else df1"
    have hp: "heap (train prophet_fit h input_data None) = h[input_data := ?new]"
      by (rule train_without_regressors_heap [OF Inr])
    have "length (columns ?new) = Suc (length (columns (h ! input_data)))"
      using reset_index_columns [OF Inr] by simp
    then have "?new \<noteq> h ! input_data" by auto
    with hp valid have "heap (train prophet_fit h input_data None) ! input_data \<noteq> h ! input_data"
      by simp
    with hp Inr train_without_regressors_raised [OF Inr, of prophet_fit] show ?thesis by simp
  qed
qed

text \<open>
  The theorem on the example heap, for a fit that always succeeds: the caller's frame is
  renamed in place and nothing is raised; and on a caller's frame with two value columns,
  which keeps the reset index while \<^verbatim>\<open>train\<close> raises ValueError.
\<close>

theorem train_alters_caller_frame_only_without_regressors_witness:
  "(0::nat) < length train_example_heap \<and>
   heap (train (\<lambda>regressors df. Inr ()) train_example_heap 0 None) ! 0 =
     \<lparr>index_name = None, index = [Num 0, Num 1],
      columns = [(''ds'', [Num 10, Num 11]), (''y'', [Num 1, Num 2])]\<rparr> \<and>
   heap (train (\<lambda>regressors df. Inr ()) train_example_heap 0 None) ! 0 \<noteq> train_example_heap ! 0 \<and>
   raised (train (\<lambda>regressors df. Inr ()) train_example_heap 0 None) = None \<and>
   (0::nat) < length [\<lparr>index_name = None, index = [Num 10],
                       columns = [(''v'', [Num 1]), (''w'', [Num 2])]\<rparr>] \<and>
   raised (train (\<lambda>regressors df. Inr ())
             [\<lparr>index_name = None, index = [Num 10],
               columns = [(''v'', [Num 1]), (''w'', [Num 2])]\<rparr>] 0 None) = Some ValueError \<and>
   heap (train (\<lambda>regressors df. Inr ())
             [\<lparr>index_name = None, index = [Num 10],
               columns = [(''v'', [Num 1]), (''w'', [Num 2])]\<rparr>] 0 None) ! 0 =
     \<lparr>index_name = None, index = [Num 0],
      columns = [(''index'', [Num 10]), (''v'', [Num 1]), (''w'', [Num 2])]\<rparr>"
  using train_alters_caller_frame_only_without_regressors
    [of train_example_heap "\<lambda>regressors df. Inr ()" 0 1]
    train_alters_caller_frame_only_without_regressors
    [of "[\<lparr>index_name = None, index = [Num 10],
            columns = [(''v'', [Num 1]), (''w'', [Num 2])]\<rparr>]" "\<lambda>regressors df. Inr ()" 0 1]
  by (simp add: train_example_heap_def reset_index_def range_index_def upt_rec)

text \<open>
  C10 as stated fails with extra regressors: the call completes, and the caller's frame at
  address 0 is what it was; the renamed frame is a new one, at address 2.
\<close>

theorem train_with_regressors_keeps_caller_frame:
  "raised (train (\<lambda>regressors df. Inr ()) train_example_heap 0 (Some 1)) = None \<and>
   heap (train (\<lambda>regressors df. Inr ()) train_example_heap 0 (Some 1)) ! 0 = train_example_heap ! 0 \<and>
   heap (train (\<lambda>regressors df. Inr ()) train_example_heap 0 (Some 1)) ! 2 =
     \<lparr>index_name = None, index = [Num 0, Num 1],
      columns = [(''ds'', [Num 10, Num 11]), (''y'', [Num 1, Num 2]), (''r'', [Num 5, Num 6])]\<rparr>"
  by (simp add: train_def join_def join_positions_def train_example_heap_def reset_index_def
      first_two_names_def rename_columns_def fit_model_def Let_def upt_rec range_index_def)

section \<open>The windows of the backtest\<close>

lemma window_starts_canonical: "window_starts 100 10 20 = [70, 50, 30, 10, 0]"
  by (simp add: window_starts_def upt_rec)

lemma map_filter_not_Nil: "x \<in> set xs \<Longrightarrow> f x = Some y \<Longrightarrow> List.map_filter f xs \<noteq> []"
  by (induction xs) (auto split: option.splits)

lemma score_Some:
  assumes "(t, a) \<in> set actual" and "map_of predicted t = Some p"
  shows "\<exists>perf. score actual predicted first_used = Some perf"
proof -
  let ?f = "\<lambda>(t, a). map_option (\<lambda>p. p - a) (map_of predicted t)"
  have "?f (t, a) = Some (p - a)" using assms(2) by simp
  from map_filter_not_Nil [of "(t, a)" actual ?f, OF assms(1) this] show ?thesis
    by (simp add: score_def Let_def)
qed

lemma training_data_length:
  "length (training_data cfg series tv start) = length series - tv - start"
  by (simp add: training_data_def Let_def pre_transformation_def)

lemma used_training_set_length:
  "length (used_training_set series tv r) = length series - window_first_used_index r - tv"
  by (simp add: used_training_set_def Let_def)

text \<open>
  The values handed to the model for the window of a result are the transform of the
  slice the test suite recovers from that result.
\<close>

lemma training_data_values:
  assumes "window_first_used_index r + tv \<le> length series"
  shows "map snd (training_data cfg series tv (window_first_used_index r)) =
           pre_transformation (used_training_set series tv r) (transformation cfg)"
proof -
  let ?n = "length series" and ?s = "window_first_used_index r"
  let ?f = "transform_apply (transformation cfg)"
  have inner: "map snd (drop s (take k zs)) = drop s (take k (map snd zs))"
    for s k and zs :: "(nat \<times> real) list"
    by (simp add: drop_map take_map)
  have unzip: "map snd (zip [0..<?n] (map ?f series)) = map ?f series"
    by simp
  have outer: "drop ?s (take (?n - tv) (map ?f series)) = map ?f (drop ?s (take (?n - tv) series))"
    by (simp add: drop_map take_map)
  have slice: "drop ?s (take (?n - tv) series) = take (?n - ?s - tv) (drop ?s series)"
    using assms by (simp add: drop_take add.commute)
  have "map snd (training_data cfg series tv ?s) =
          map snd (drop ?s (take (?n - tv) (zip [0..<?n] (map ?f series))))"
    by (simp add: training_data_def Let_def pre_transformation_def)
  also have "\<dots> = drop ?s (take (?n - tv) (map snd (zip [0..<?n] (map ?f series))))"
    by (rule inner)
  also have "\<dots> = map ?f (take (?n - ?s - tv) (drop ?s series))"
    unfolding unzip outer slice ..
  also have "\<dots> = pre_transformation (used_training_set series tv r) (transformation cfg)"
    by (simp add: used_training_set_def Let_def pre_transformation_def)
  finally show ?thesis .
qed

lemma run_window_None:
  "model_train fm (training_data cfg series tv start) = None \<Longrightarrow>
     run_window fm cfg series tv start = None"
  by (simp add: run_window_def Let_def)

lemma run_window_Some:
  assumes "start + tv \<le> length series" and "0 < tv"
    and "model_train fm (training_data cfg series tv start) = Some m"
    and "map fst (model_predict fm m [start..<length series + prediction_lags cfg]) =
           [start..<length series + prediction_lags cfg]"
  shows "\<exists>r. run_window fm cfg series tv start = Some r \<and> window_first_used_index r = start \<and>
           map fst (window_prediction r) = [start..<length series + prediction_lags cfg]"
proof -
  let ?n = "length series"
  let ?fi = "[start..<?n + prediction_lags cfg]"
  let ?fc = "model_predict fm m ?fi"
  let ?yhat = "post_transformation (map snd ?fc) (transformation cfg)"
  let ?pred = "zip (map fst ?fc) ?yhat"
  let ?actual = "drop (?n - tv) (zip [0..<?n] series)"
  have ly: "length ?yhat = length (map fst ?fc)" by (simp add: post_transformation_def)
  then have mf: "map fst ?pred = ?fi" using assms(4) by simp
  have tv: "?n - tv < ?n" using assms(1,2) by simp
  then have "?actual ! 0 = (?n - tv, series ! (?n - tv))" by simp
  moreover have "0 < length ?actual" using tv by simp
  ultimately have mem: "(?n - tv, series ! (?n - tv)) \<in> set ?actual"
    by (metis nth_mem)
  have "?n - tv \<in> set (map fst ?fc)" using assms(1,4) tv by simp
  with ly obtain p where "map_of ?pred (?n - tv) = Some p"
    using map_of_zip_is_Some [of "map fst ?fc" ?yhat "?n - tv"] by auto
  from score_Some [OF mem this] obtain perf where "score ?actual ?pred start = Some perf" ..
  with assms(3) mf show ?thesis by (simp add: run_window_def Let_def)
qed

text \<open>
  C3, as amended (the claim has five results whatever the model does): on a series of
  100 points, with 10 test values and 20 delta training values (given as counts or as
  percentages), the backtest trains on the five windows that start at 70, 50, 30, 10 and
  0. When training succeeds on each of them and each forecast holds one value per
  requested timestamp, it returns exactly 5 window results, one per window, and the
  prediction of each has the length of the training data handed to the model plus the
  10 test values plus \<open>prediction_lags\<close>; that training data holds the transform of the
  slice the test suite recovers from the result.
\<close>

theorem launch_model_five_windows:
  assumes "length series = 100"
    and "test_amount cfg = Absolute 10 \<or> test_amount cfg = Percentage 10"
    and "delta_training_amount cfg = Absolute 20 \<or> delta_training_amount cfg = Percentage 20"
    and "\<forall>start\<in>set [70, 50, 30, 10, 0].
           \<exists>m. model_train fm (training_data cfg series 10 start) = Some m \<and>
               map fst (model_predict fm m [start..<100 + prediction_lags cfg]) =
                 [start..<100 + prediction_lags cfg]"
  shows "\<exists>rs. launch_model fm cfg series = Inr rs \<and> length rs = 5 \<and>
           mset (map window_first_used_index rs) = mset [70, 50, 30, 10, 0] \<and>
           list_all (\<lambda>r.
             length (window_prediction r) =
               length (training_data cfg series 10 (window_first_used_index r)) + 10 +
               prediction_lags cfg \<and>
             map snd (training_data cfg series 10 (window_first_used_index r)) =
               pre_transformation (used_training_set series 10 r) (transformation cfg) \<and>
             length (window_prediction r) =
               length (used_training_set series 10 r) + 10 + prediction_lags cfg) rs"
proof -
  let ?good = "\<lambda>r.
             length (window_prediction r) =
               length (training_data cfg series 10 (window_first_used_index r)) + 10 +
               prediction_lags cfg \<and>
             map snd (training_data cfg series 10 (window_first_used_index r)) =
               pre_transformation (used_training_set series 10 r) (transformation cfg) \<and>
             length (window_prediction r) =
               length (used_training_set series 10 r) + 10 + prediction_lags cfg"
  have tv: "resolve_amount (length series) (test_amount cfg) = 10"
    using assms(1,2) by (auto simp: resolve_amount_def)
  have delta: "resolve_amount (length series) (delta_training_amount cfg) = 20"
    using assms(1,3) by (auto simp: resolve_amount_def)
  have ok: "\<exists>r. run_window fm cfg series 10 start = Some r \<and> window_first_used_index r = start \<and>
              ?good r"
    if "start \<in> set [70, 50, 30, 10, 0]" for start
  proof -
    from that have le: "start + 10 \<le> length series" using assms(1) by auto
    from that assms(4) obtain m where
      m: "model_train fm (training_data cfg series 10 start) = Some m"
      "map fst (model_predict fm m [start..<100 + prediction_lags cfg]) =
         [start..<100 + prediction_lags cfg]"
      by blast
    from run_window_Some [of start 10 series fm cfg m] le m assms(1) obtain r where
      r: "run_window fm cfg series 10 start = Some r" "window_first_used_index r = start"
      "map fst (window_prediction r) = [start..<length series + prediction_lags cfg]"
      by auto
    from r(3) have "length (window_prediction r) = length series + prediction_lags cfg - start"
      by (metis length_map length_upt)
    with le assms(1) r(2) have
      "length (window_prediction r) =
         length (training_data cfg series 10 (window_first_used_index r)) + 10 + prediction_lags cfg"
      "length (window_prediction r) =
         length (used_training_set series 10 r) + 10 + prediction_lags cfg"
      by (simp_all add: training_data_length used_training_set_length)
    moreover from training_data_values [of r 10 series cfg] le r(2) have
      "map snd (training_data cfg series 10 (window_first_used_index r)) =
         pre_transformation (used_training_set series 10 r) (transformation cfg)"
      by simp
    ultimately show ?thesis using r(1,2) by blast
  qed
  from ok [of 70] ok [of 50] ok [of 30] ok [of 10] ok [of 0]
  obtain r1 r2 r3 r4 r5 where
    r1: "run_window fm cfg series 10 70 = Some r1" "window_first_used_index r1 = 70" "?good r1" and
    r2: "run_window fm cfg series 10 50 = Some r2" "window_first_used_index r2 = 50" "?good r2" and
    r3: "run_window fm cfg series 10 30 = Some r3" "window_first_used_index r3 = 30" "?good r3" and
    r4: "run_window fm cfg series 10 10 = Some r4" "window_first_used_index r4 = 10" "?good r4" and
    r5: "run_window fm cfg series 10 0 = Some r5" "window_first_used_index r5 = 0" "?good r5"
    by auto
  let ?rs = "[r1, r2, r3, r4, r5]"
  let ?key = "\<lambda>r. estimator_metric (main_accuracy_estimator cfg) (window_performance r)"
  have mf: "List.map_filter (run_window fm cfg series 10) (window_starts 100 10 20) = ?rs"
    using r1(1) r2(1) r3(1) r4(1) r5(1) by (simp add: window_starts_canonical)
  have lm: "launch_model fm cfg series = Inr (sort_key ?key ?rs)"
    using tv delta mf assms(1) by (simp add: launch_model_def Let_def)
  have "\<forall>r\<in>set ?rs. ?good r"
    using r1(3) r2(3) r3(3) r4(3) r5(3) by simp
  then have all: "list_all ?good (sort_key ?key ?rs)"
    unfolding list_all_iff set_sort by blast
  have len: "length (sort_key ?key ?rs) = 5"
    unfolding length_sort by simp
  have "mset (map window_first_used_index (sort_key ?key ?rs)) =
          mset (map window_first_used_index ?rs)"
    by (metis mset_map mset_sort)
  then have first: "mset (map window_first_used_index (sort_key ?key ?rs)) = mset [70, 50, 30, 10, 0]"
    using r1(2) r2(2) r3(2) r4(2) r5(2) by simp
  from lm len first all show ?thesis by blast
qed

text \<open>
  The theorem on a constant series, the test suite's configuration (percentages 10 and
  20, 10 prediction lags) and a model that always trains and forecasts 0 at every
  requested timestamp.
\<close>

theorem launch_model_five_windows_witness:
  "length (replicate 100 (1::real)) = 100 \<and>
   (\<exists>rs. launch_model
            \<lparr>model_train = \<lambda>training. Some (), model_predict = \<lambda>m idx. map (\<lambda>t. (t, 0)) idx\<rparr>
            \<lparr>test_amount = Percentage 10, delta_training_amount = Percentage 20,
             prediction_lags = 10, transformation = NoTransform,
             main_accuracy_estimator = ByMAE\<rparr> (replicate 100 1) = Inr rs \<and>
          length rs = 5 \<and>
          mset (map window_first_used_index rs) = mset [70, 50, 30, 10, 0] \<and>
          list_all (\<lambda>r. length (window_prediction r) =
                          length (used_training_set (replicate 100 1) 10 r) + 10 + 10) rs)"
proof -
  let ?fm = "\<lparr>model_train = \<lambda>training :: (nat \<times> real) list. Some (),
              model_predict = \<lambda>(m :: unit) idx. map (\<lambda>t. (t, 0 :: real)) idx\<rparr>"
  let ?cfg = "\<lparr>test_amount = Percentage 10, delta_training_amount = Percentage 20,
               prediction_lags = 10, transformation = NoTransform,
               main_accuracy_estimator = ByMAE\<rparr>"
  have "\<forall>start\<in>set [70, 50, 30, 10, 0].
          \<exists>m. model_train ?fm (training_data ?cfg (replicate 100 1) 10 start) = Some m \<and>
              map fst (model_predict ?fm m [start..<100 + prediction_lags ?cfg]) =
                [start..<100 + prediction_lags ?cfg]"
    by (simp add: comp_def)
  from launch_model_five_windows [of "replicate 100 1" ?cfg ?fm, OF _ _ _ this]
  obtain rs where
    "launch_model ?fm ?cfg (replicate 100 1) = Inr rs" "length rs = 5"
    "mset (map window_first_used_index rs) = mset [70, 50, 30, 10, 0]"
    "list_all (\<lambda>r. length (window_prediction r) =
                 length (used_training_set (replicate 100 1) 10 r) + 10 + 10) rs"
    by (auto simp: list_all_iff)
  then show ?thesis by auto
qed

text \<open>
  C3 as stated fails when the training of a window fails: with a model that cannot be
  trained on the 90 points of the all-history window, that window is dropped and the
  backtest returns 4 results.
\<close>

theorem launch_model_failed_window_dropped:
  "(case launch_model
           \<lparr>model_train = \<lambda>training. if length training = 90 then None else Some (),
            model_predict = \<lambda>m idx. map (\<lambda>t. (t, 0)) idx\<rparr>
           \<lparr>test_amount = Percentage 10, delta_training_amount = Percentage 20,
            prediction_lags = 10, transformation = NoTransform,
            main_accuracy_estimator = ByMAE\<rparr> (replicate 100 1) of
      Inl e \<Rightarrow> False
    | Inr rs \<Rightarrow> length rs = 4)"
proof -
  let ?fm = "\<lparr>model_train = \<lambda>training :: (nat \<times> real) list.
                if length training = 90 then None else Some (),
              model_predict = \<lambda>(m :: unit) idx. map (\<lambda>t. (t, 0 :: real)) idx\<rparr>"
  let ?cfg = "\<lparr>test_amount = Percentage 10, delta_training_amount = Percentage 20,
               prediction_lags = 10, transformation = NoTransform,
               main_accuracy_estimator = ByMAE\<rparr>"
  let ?key = "\<lambda>r. estimator_metric (main_accuracy_estimator ?cfg) (window_performance r)"
  define series :: "real list" where "series = replicate 100 1"
  have len: "length series = 100" by (simp add: series_def)
  have tlen: "length (training_data ?cfg series 10 start) = 90 - start" for start
    unfolding training_data_length len by simp
  have dropped: "run_window ?fm ?cfg series 10 0 = None"
    by (rule run_window_None) (simp add: tlen)
  have kept: "\<exists>r. run_window ?fm ?cfg series 10 start = Some r"
    if "0 < start" "start \<le> 90" for start
  proof -
    from that have tr: "model_train ?fm (training_data ?cfg series 10 start) = Some ()"
      by (simp add: tlen)
    have fc: "map fst (model_predict ?fm () [start..<length series + prediction_lags ?cfg]) =
        [start..<length series + prediction_lags ?cfg]"
      by (simp add: comp_def)
    have le: "start + 10 \<le> length series" using that len by simp
    from run_window_Some [OF le _ tr fc] show ?thesis by auto
  qed
  from kept [of 70] kept [of 50] kept [of 30] kept [of 10] obtain r1 r2 r3 r4 where
    "run_window ?fm ?cfg series 10 70 = Some r1" "run_window ?fm ?cfg series 10 50 = Some r2"
    "run_window ?fm ?cfg series 10 30 = Some r3" "run_window ?fm ?cfg series 10 10 = Some r4"
    by auto
  with dropped have mf:
    "List.map_filter (run_window ?fm ?cfg series 10) (window_starts 100 10 20) = [r1, r2, r3, r4]"
    by (simp add: window_starts_canonical)
  have tv: "resolve_amount 100 (Percentage 10) = 10"
    and delta: "resolve_amount 100 (Percentage 20) = 20"
    by (simp_all add: resolve_amount_def)
  have run: "launch_model ?fm ?cfg series = Inr (sort_key ?key [r1, r2, r3, r4])"
    by (simp add: launch_model_def Let_def len tv delta mf del: sort_key_simps)
  have "case launch_model ?fm ?cfg series of Inl e \<Rightarrow> False | Inr rs \<Rightarrow> length rs = 4"
    unfolding run by (simp del: sort_key_simps)
  then show ?thesis
    unfolding series_def .
qed

end
